theory Spec2Isabelle
  imports Complex_Main
begin

section \<open>Window placement (\<open>IssueMainService.getWindowPosition\<close>)\<close>

text \<open>
  JavaScript numbers are modelled as rationals. The placement arithmetic only adds,
  subtracts and halves its inputs, so on the integer-valued bounds Electron reports (and far
  below \<open>2^52\<close>) every intermediate value is a multiple of one half and the double
  arithmetic of the source is exact; \<open>NaN\<close> and the infinities have no counterpart here.
\<close>

type_synonym number = rat

text \<open>Electron's \<open>Rectangle\<close> and the part of \<open>Display\<close> the service reads.\<close>

record rectangle =
  rect_x :: number
  rect_y :: number
  rect_width :: number
  rect_height :: number

record display =
  bounds :: rectangle

text \<open>Electron window handles are identified by their numeric \<open>id\<close>.\<close>

type_synonym win = nat

text \<open>
  The answers of Electron's \<open>screen\<close> module at the time of the call:
  \<open>getAllDisplays()\<close>, \<open>getDisplayNearestPoint(getCursorScreenPoint())\<close>,
  \<open>getDisplayMatching(parentWindow.getBounds())\<close> and \<open>getPrimaryDisplay()\<close>. The
  source guards the last three with \<open>!displayToUse\<close>, so they are optional here.
\<close>

record screen_env =
  getAllDisplays :: "display list"
  getDisplayNearestCursor :: "display option"
  getDisplayMatching :: "win \<Rightarrow> display option"
  getPrimaryDisplay :: "display option"

text \<open>\<open>IWindowState\<close>, with the four fields \<open>getWindowPosition\<close> fills in.\<close>

record window_state =
  ws_x :: number
  ws_y :: number
  ws_width :: number
  ws_height :: number

text \<open>
  The \<open>Error\<close> objects that occur: a \<open>TypeError\<close> for reading a property of
  \<open>undefined\<close>, Electron's \<open>TypeError\<close> "Object has been destroyed" for using a
  destroyed window, the service's own error, and a failure of a collaborator with its message.
\<close>

datatype js_error =
  TypeError
| ObjectDestroyed
| UnexpectedCommandSource string
| CollaboratorFailure string

text \<open>\<open>displays[0]\<close>: \<open>undefined\<close> on an empty array.\<close>

definition first_display :: "display list \<Rightarrow> display option" where
  "first_display ds = (case ds of [] \<Rightarrow> None | d # _ \<Rightarrow> Some d)"

text \<open>
  The first half of \<open>getWindowPosition\<close>: the value of the local \<open>displayToUse\<close> when
  the bounds are read. \<open>parentWindow\<close> is a \<open>BrowserWindow\<close> at both call sites; the
  source still tests it, so it is optional here.
\<close>

definition displayToUse :: "screen_env \<Rightarrow> bool \<Rightarrow> win option \<Rightarrow> display option" where
  "displayToUse scr isMacintosh parentWindow =
     (let displays = getAllDisplays scr in
      if length displays = 1 then first_display displays
      else
        let d1 = (if isMacintosh then getDisplayNearestCursor scr else None);
            d2 = (case d1 of
                    Some d \<Rightarrow> Some d
                  | None \<Rightarrow> (case parentWindow of
                               None \<Rightarrow> None
                             | Some p \<Rightarrow> getDisplayMatching scr p));
            d3 = (case d2 of
                    Some d \<Rightarrow> Some d
                  | None \<Rightarrow> (case getPrimaryDisplay scr of
                               Some d \<Rightarrow> Some d
                             | None \<Rightarrow> first_display displays))
        in d3)"

text \<open>
  The second half: centre the requested size on the display bounds, then the six guarded
  assignments, in the order of the source.
\<close>

definition place_on :: "rectangle \<Rightarrow> number \<Rightarrow> number \<Rightarrow> window_state" where
  "place_on displayBounds defaultWidth defaultHeight =
     (let s0 = \<lparr> ws_x = rect_x displayBounds + (rect_width displayBounds / 2) - (defaultWidth / 2),
                 ws_y = rect_y displayBounds + (rect_height displayBounds / 2) - (defaultHeight / 2),
                 ws_width = defaultWidth,
                 ws_height = defaultHeight \<rparr>
      in
      if rect_width displayBounds > 0 \<and> rect_height displayBounds > 0 then
        let s1 = (if ws_x s0 < rect_x displayBounds then s0\<lparr>ws_x := rect_x displayBounds\<rparr> else s0);
            s2 = (if ws_y s1 < rect_y displayBounds then s1\<lparr>ws_y := rect_y displayBounds\<rparr> else s1);
            s3 = (if ws_x s2 > rect_x displayBounds + rect_width displayBounds
                  then s2\<lparr>ws_x := rect_x displayBounds\<rparr> else s2);
            s4 = (if ws_y s3 > rect_y displayBounds + rect_height displayBounds
                  then s3\<lparr>ws_y := rect_y displayBounds\<rparr> else s3);
            s5 = (if ws_width s4 > rect_width displayBounds
                  then s4\<lparr>ws_width := rect_width displayBounds\<rparr> else s4);
            s6 = (if ws_height s5 > rect_height displayBounds
                  then s5\<lparr>ws_height := rect_height displayBounds\<rparr> else s5)
        in s6
      else s0)"

text \<open>
  \<open>getWindowPosition\<close>: reading \<open>displayToUse.bounds\<close> of an undefined display
  throws a \<open>TypeError\<close>.
\<close>

definition getWindowPosition ::
  "screen_env \<Rightarrow> bool \<Rightarrow> win option \<Rightarrow> number \<Rightarrow> number \<Rightarrow> js_error + window_state" where
  "getWindowPosition scr isMacintosh parentWindow defaultWidth defaultHeight =
     (case displayToUse scr isMacintosh parentWindow of
        None \<Rightarrow> Inl TypeError
      | Some d \<Rightarrow> Inr (place_on (bounds d) defaultWidth defaultHeight))"

text \<open>A window state lies fully within a rectangle.\<close>

definition within_bounds :: "window_state \<Rightarrow> rectangle \<Rightarrow> bool" where
  "within_bounds s r \<longleftrightarrow>
     rect_x r \<le> ws_x s \<and> ws_x s + ws_width s \<le> rect_x r + rect_width r \<and>
     rect_y r \<le> ws_y s \<and> ws_y s + ws_height s \<le> rect_y r + rect_height r"

text \<open>A screen with the single display of the example: 1920 by 1080 at the origin.\<close>

definition full_hd :: display where
  "full_hd = \<lparr> bounds = \<lparr> rect_x = 0, rect_y = 0, rect_width = 1920, rect_height = 1080 \<rparr> \<rparr>"

definition single_screen :: "display \<Rightarrow> screen_env" where
  "single_screen d =
     \<lparr> getAllDisplays = [d], getDisplayNearestCursor = Some d,
       getDisplayMatching = (\<lambda>_. Some d), getPrimaryDisplay = Some d \<rparr>"

section \<open>Service state, Electron objects and effects\<close>

text \<open>Opaque payloads (\<open>any\<close> in the source) are carried as strings.\<close>

type_synonym json = string

text \<open>A \<open>RemoteDiagnosticError | IRemoteDiagnosticInfo\<close> as far as the listing reads it.\<close>

record remote_data =
  hostName :: string
  errorMessage :: "string option"
  processes :: "json option"

datatype root_process = ProcessTree json | RemoteFailure remote_data

record process_entry =
  pe_name :: string
  pe_rootProcess :: root_process

text \<open>What is sent over a channel.\<close>

datatype payload =
  PRunAction string string "json list"
| PStoredData json
| PBool bool
| PJson json
| PProcesses "process_entry list"

text \<open>The options of \<open>new BrowserWindow\<close> that depend on the computed placement.\<close>

record window_opts =
  o_x :: "number option"
  o_y :: "number option"
  o_width :: number
  o_height :: number
  o_title :: string
  o_parent :: "win option"

text \<open>
  Every call the service makes on a collaborator (an Electron window, the configuration
  channel, the logger, the dialog service) is appended to a trace. \<open>StoreDispose s\<close> is
  entered when the disposable store \<open>s\<close> really releases what it holds.
\<close>

datatype effect =
  WinCreate win window_opts
| WinSetMenuBarVisibility win bool
| WinOpenDevTools win
| WinLoadURL win string
| WinShow win
| WinSetAlwaysOnTop win bool
| WinFocus win
| WinRestore win
| WinClose win
| WinDestroy win
| ConfigUpdate nat win json
| StoreDispose nat
| WebSend win string payload
| SenderSend nat string payload
| ShowMessageBox win string
| OpenExternal string
| LogTrace string
| LogWarn string
| LogError string

datatype promise_state = Pending | Resolved "json option" | Rejected "js_error option"

datatype win_event = EvClose | EvClosed | EvReadyToShow | EvDidFinishLoad

text \<open>
  The closures the service registers, each with what it captures: the session's
  \<open>DisposableStore\<close>, or the \<open>resolve\<close>/\<open>reject\<close> pair of the bridge promise
  together with the parts of \<open>config\<close> it reads.
\<close>

datatype handler =
  ReporterOnClose nat
| ReporterParentOnClosed nat
| ExplorerOnClose nat
| ExplorerParentOnClose nat
| BridgeReadyToShow nat string
| BridgeTimeout nat string
| BridgeDidFinishLoad json
| BridgeOnClosedChannel nat string
| BridgeOnClosed nat
| BridgeParentOnClosed nat

text \<open>The listener the bridge installs on an \<open>ipcMain\<close> channel: promise, \<open>winId\<close>, command.\<close>

datatype ipc_handler = BridgeOnMessage nat string string

record listener =
  l_window :: win
  l_event :: win_event
  l_once :: bool
  l_handler :: handler

text \<open>
  The six fields of \<open>IssueMainService\<close>, followed by the state of the runtime around
  it: Electron's window table (next id, destroyed and minimized windows), the listeners
  on windows and on \<open>ipcMain\<close>, pending timers, disposable stores, promises and the trace.
\<close>

record state =
  issueReporterWindow :: "win option"
  issueReporterParentWindow :: "win option"
  processExplorerWindow :: "win option"
  processExplorerParentWindow :: "win option"
  browserWindow :: "win option"
  browserParentWindow :: "win option"
  next_window :: win
  destroyed :: "win set"
  minimized :: "win set"
  window_listeners :: "listener list"
  ipc_listeners :: "(string \<times> ipc_handler) list"
  timers :: "handler list"
  next_store :: nat
  disposed_stores :: "nat set"
  next_promise :: nat
  promises :: "nat \<Rightarrow> promise_state"
  trace :: "effect list"

definition initial_state :: state where
  "initial_state =
     \<lparr> issueReporterWindow = None, issueReporterParentWindow = None,
       processExplorerWindow = None, processExplorerParentWindow = None,
       browserWindow = None, browserParentWindow = None,
       next_window = 1, destroyed = {}, minimized = {},
       window_listeners = [], ipc_listeners = [], timers = [],
       next_store = 0, disposed_stores = {},
       next_promise = 0, promises = (\<lambda>_. Pending),
       trace = [] \<rparr>"

text \<open>What the surroundings answer during one call of the service.\<close>

record env =
  screen :: screen_env
  isMacintosh :: bool
  platform_win32 :: bool
  getFocusedWindow :: "win option"

definition perform :: "effect \<Rightarrow> state \<Rightarrow> state" where
  "perform e st = st\<lparr>trace := trace st @ [e]\<rparr>"

text \<open>\<open>window.restore()\<close> also ends the minimized state; \<open>window.destroy()\<close> destroys at once.\<close>

definition win_restore :: "win \<Rightarrow> state \<Rightarrow> state" where
  "win_restore w st = perform (WinRestore w) (st\<lparr>minimized := minimized st - {w}\<rparr>)"

definition win_destroy :: "win \<Rightarrow> state \<Rightarrow> state" where
  "win_destroy w st = perform (WinDestroy w) (st\<lparr>destroyed := insert w (destroyed st)\<rparr>)"

text \<open>
  Modelled from the spec: \<open>DisposableStore\<close> (\<open>vs/base/common/lifecycle\<close>) is not
  under src/. Section 4.2: \<open>dispose\<close> releases the address and must be idempotent.
\<close>

definition dispose :: "nat \<Rightarrow> state \<Rightarrow> state" where
  "dispose s st =
     (if s \<in> disposed_stores st then st
      else perform (StoreDispose s) (st\<lparr>disposed_stores := insert s (disposed_stores st)\<rparr>))"

text \<open>Settling a promise: only the first \<open>resolve\<close> or \<open>reject\<close> has an effect.\<close>

definition settle :: "nat \<Rightarrow> promise_state \<Rightarrow> state \<Rightarrow> state" where
  "settle pid v st =
     (if promises st pid = Pending then st\<lparr>promises := (promises st)(pid := v)\<rparr> else st)"

definition add_listener :: "win \<Rightarrow> win_event \<Rightarrow> bool \<Rightarrow> handler \<Rightarrow> state \<Rightarrow> state" where
  "add_listener w ev once h st =
     st\<lparr>window_listeners := window_listeners st @
          [\<lparr> l_window = w, l_event = ev, l_once = once, l_handler = h \<rparr>]\<rparr>"

definition ipc_removeAllListeners :: "string \<Rightarrow> state \<Rightarrow> state" where
  "ipc_removeAllListeners channel st =
     st\<lparr>ipc_listeners := filter (\<lambda>(c, _). c \<noteq> channel) (ipc_listeners st)\<rparr>"

definition ipc_on :: "string \<Rightarrow> ipc_handler \<Rightarrow> state \<Rightarrow> state" where
  "ipc_on channel h st = st\<lparr>ipc_listeners := ipc_listeners st @ [(channel, h)]\<rparr>"

text \<open>
  The \<open>IpcMainEvent\<close> of a request: the id of the sending \<open>WebContents\<close> and what
  \<open>event.sender.isDestroyed()\<close> answers when the reply is ready to be sent.
\<close>

record ipc_event =
  sender :: nat
  sender_isDestroyed :: bool

text \<open>\<open>safeSend\<close>: reply to the sender of an event unless it has been destroyed.\<close>

definition safeSend :: "ipc_event \<Rightarrow> string \<Rightarrow> payload \<Rightarrow> state \<Rightarrow> state" where
  "safeSend event channel p st =
     (if \<not> sender_isDestroyed event then perform (SenderSend (sender event) channel p) st
      else st)"

section \<open>Close listeners of the sessions\<close>

text \<open>The body of each registered closure, reading the service fields when it runs.\<close>

fun run_handler :: "handler \<Rightarrow> state \<Rightarrow> state" where
  "run_handler (ReporterOnClose s) st = dispose s (st\<lparr>issueReporterWindow := None\<rparr>)"
| "run_handler (ReporterParentOnClosed s) st =
     (case issueReporterWindow st of
        None \<Rightarrow> st
      | Some w \<Rightarrow> dispose s ((perform (WinClose w) st)\<lparr>issueReporterWindow := None\<rparr>))"
| "run_handler (ExplorerOnClose s) st = dispose s (st\<lparr>processExplorerWindow := None\<rparr>)"
| "run_handler (ExplorerParentOnClose s) st =
     (case processExplorerWindow st of
        None \<Rightarrow> st
      | Some w \<Rightarrow> dispose s ((perform (WinClose w) st)\<lparr>processExplorerWindow := None\<rparr>))"
| "run_handler (BridgeReadyToShow pid winId) st =
     (let st1 = (case browserWindow st of
                   None \<Rightarrow> st
                 | Some b \<Rightarrow> perform (WinSetAlwaysOnTop b True) (perform (WinShow b) st))
      in st1\<lparr>timers := timers st1 @ [BridgeTimeout pid winId]\<rparr>)"
| "run_handler (BridgeTimeout pid winId) st =
     (let st1 = (case browserWindow st of
                   None \<Rightarrow> st
                 | Some b \<Rightarrow> perform (WinSetAlwaysOnTop b False) st)
      in if winId = ''addEmulator'' then settle pid (Resolved None) st1 else st1)"
| "run_handler (BridgeDidFinishLoad d) st =
     (case browserWindow st of
        None \<Rightarrow> st
      | Some b \<Rightarrow> perform (WebSend b ''stored-data'' (PStoredData d)) st)"
| "run_handler (BridgeOnClosedChannel pid channel) st =
     settle pid (Rejected None) ((ipc_removeAllListeners channel st)\<lparr>browserWindow := None\<rparr>)"
| "run_handler (BridgeOnClosed pid) st =
     settle pid (Rejected None) (st\<lparr>browserWindow := None\<rparr>)"
| "run_handler (BridgeParentOnClosed pid) st =
     (case browserWindow st of
        None \<Rightarrow> st
      | Some b \<Rightarrow> settle pid (Rejected None) ((perform (WinClose b) st)\<lparr>browserWindow := None\<rparr>))"

text \<open>
  Electron emits event \<open>ev\<close> on window \<open>w\<close>: the listeners registered for it run in
  the order of their registration; \<open>once\<close> listeners are removed before they run.
\<close>

definition listens :: "win \<Rightarrow> win_event \<Rightarrow> listener \<Rightarrow> bool" where
  "listens w ev l \<longleftrightarrow> l_window l = w \<and> l_event l = ev"

fun run_handlers :: "handler list \<Rightarrow> state \<Rightarrow> state" where
  "run_handlers [] st = st"
| "run_handlers (h # hs) st = run_handlers hs (run_handler h st)"

definition emit :: "win \<Rightarrow> win_event \<Rightarrow> state \<Rightarrow> state" where
  "emit w ev st =
     (let hs = map l_handler (filter (listens w ev) (window_listeners st));
          st1 = st\<lparr>window_listeners :=
                     filter (\<lambda>l. \<not> (listens w ev l \<and> l_once l)) (window_listeners st)\<rparr>
      in run_handlers hs st1)"

text \<open>A window has closed: Electron destroys it and emits \<open>closed\<close>.\<close>

definition window_closed :: "win \<Rightarrow> state \<Rightarrow> state" where
  "window_closed w st = emit w EvClosed (st\<lparr>destroyed := insert w (destroyed st)\<rparr>)"

text \<open>The timer that is due fires.\<close>

definition fire_timer :: "state \<Rightarrow> state" where
  "fire_timer st =
     (case timers st of
        [] \<Rightarrow> st
      | h # hs \<Rightarrow> run_handler h (st\<lparr>timers := hs\<rparr>))"

section \<open>Opening the issue reporter and the process explorer\<close>

text \<open>
  \<open>createBrowserWindow\<close>: the new window takes the next Electron id. Background colour,
  zoom factor and the fixed web preferences do not reach any later decision and are left out.
\<close>

definition createBrowserWindow :: "window_state \<Rightarrow> string \<Rightarrow> state \<Rightarrow> win \<times> state" where
  "createBrowserWindow position title st =
     (let w = next_window st;
          st1 = perform (WinCreate w
                  \<lparr> o_x = Some (ws_x position), o_y = Some (ws_y position),
                    o_width = ws_width position, o_height = ws_height position,
                    o_title = title, o_parent = None \<rparr>)
                  (st\<lparr>next_window := Suc w\<rparr>)
      in (w, perform (WinSetMenuBarVisibility w False) st1))"

text \<open>\<open>window?.focus()\<close> on a slot.\<close>

definition focus_opt :: "win option \<Rightarrow> state \<Rightarrow> state" where
  "focus_opt slot st = (case slot of None \<Rightarrow> st | Some w \<Rightarrow> perform (WinFocus w) st)"

text \<open>
  \<open>openReporter\<close>. The result pairs the error the \<open>async\<close> function rejects with, if
  any, with the state it leaves behind. A throw inside \<open>getWindowPosition\<close> leaves the
  function after the parent slot was assigned and the disposable store allocated.
\<close>

definition openReporter :: "env \<Rightarrow> json \<Rightarrow> state \<Rightarrow> js_error option \<times> state" where
  "openReporter e d st =
     (let (err, st') =
        (if issueReporterWindow st = None then
           let st1 = st\<lparr>issueReporterParentWindow := getFocusedWindow e\<rparr> in
           (case getFocusedWindow e of
              None \<Rightarrow> (None, st1)
            | Some p \<Rightarrow>
                let s = next_store st1;
                    st2 = st1\<lparr>next_store := Suc s\<rparr>
                in (case getWindowPosition (screen e) (isMacintosh e) (Some p) 700 800 of
                      Inl x \<Rightarrow> (Some x, st2)
                    | Inr position \<Rightarrow>
                        let (w, st3) = createBrowserWindow position ''Issue Reporter'' st2;
                            st4 = st3\<lparr>issueReporterWindow := Some w\<rparr>;
                            st5 = perform (ConfigUpdate s w d) st4;
                            st6 = perform (WinLoadURL w
                                    ''vs/code/electron-sandbox/issue/issueReporter.html'') st5;
                            st7 = add_listener w EvClose False (ReporterOnClose s) st6;
                            st8 = add_listener p EvClosed False (ReporterParentOnClosed s) st7
                        in (None, st8)))
         else (None, st))
      in case err of
           Some x \<Rightarrow> (Some x, st')
         | None \<Rightarrow> (None, focus_opt (issueReporterWindow st') st'))"

text \<open>\<open>openProcessExplorer\<close>: the same shape; the parent listener is on \<open>close\<close>.\<close>

definition openProcessExplorer :: "env \<Rightarrow> json \<Rightarrow> state \<Rightarrow> js_error option \<times> state" where
  "openProcessExplorer e d st =
     (let (err, st') =
        (if processExplorerWindow st = None then
           let st1 = st\<lparr>processExplorerParentWindow := getFocusedWindow e\<rparr> in
           (case getFocusedWindow e of
              None \<Rightarrow> (None, st1)
            | Some p \<Rightarrow>
                let s = next_store st1;
                    st2 = st1\<lparr>next_store := Suc s\<rparr>
                in (case getWindowPosition (screen e) (isMacintosh e) (Some p) 800 500 of
                      Inl x \<Rightarrow> (Some x, st2)
                    | Inr position \<Rightarrow>
                        let (w, st3) = createBrowserWindow position ''Process Explorer'' st2;
                            st4 = st3\<lparr>processExplorerWindow := Some w\<rparr>;
                            st5 = perform (ConfigUpdate s w d) st4;
                            st6 = perform (WinLoadURL w
                                    ''vs/code/electron-sandbox/processExplorer/processExplorer.html'') st5;
                            st7 = add_listener w EvClose False (ExplorerOnClose s) st6;
                            st8 = add_listener p EvClose False (ExplorerParentOnClose s) st7
                        in (None, st8)))
         else (None, st))
      in case err of
           Some x \<Rightarrow> (Some x, st')
         | None \<Rightarrow> (None, focus_opt (processExplorerWindow st') st'))"

section \<open>The bridge window (\<open>openBrowserWindow\<close>)\<close>

text \<open>
  \<open>config = args[0]\<close>. A missing or empty \<open>channel\<close> or \<open>command\<close> is the empty string,
  a missing \<open>height\<close> or \<open>width\<close> is \<open>None\<close>; \<open>events\<close> entries are objects.
\<close>

record bridge_event =
  ev_channel :: string
  ev_command :: string

record bridge_data =
  theme :: string
  stored :: json

record bridge_config =
  cfg_height :: "number option"
  cfg_width :: "number option"
  cfg_winId :: string
  cfg_loadURL :: string
  cfg_data :: "bridge_data option"
  cfg_events :: "bridge_event list"

definition truthy :: "number option \<Rightarrow> bool" where
  "truthy n \<longleftrightarrow> (case n of None \<Rightarrow> False | Some v \<Rightarrow> v \<noteq> 0)"

definition windowHeight :: "bool \<Rightarrow> bridge_config \<Rightarrow> number" where
  "windowHeight win32 config =
     (if win32 then (if truthy (cfg_height config) then the (cfg_height config) else 10)
      else (if truthy (cfg_height config) then the (cfg_height config) + 15 else 25))"

text \<open>The loop over \<open>config['events']\<close>.\<close>

fun register_events :: "nat \<Rightarrow> string \<Rightarrow> win \<Rightarrow> bridge_event list \<Rightarrow> state \<Rightarrow> state" where
  "register_events pid winId b [] st = st"
| "register_events pid winId b (ev # evs) st =
     (if ev_channel ev = [] \<or> ev_command ev = [] then register_events pid winId b evs st
      else
        let st1 = ipc_removeAllListeners (ev_channel ev) st;
            st2 = ipc_on (ev_channel ev) (BridgeOnMessage pid winId (ev_command ev)) st1;
            st3 = add_listener b EvClosed False (BridgeOnClosedChannel pid (ev_channel ev)) st2
        in register_events pid winId b evs st3)"

text \<open>
  The body of \<open>if (this._browserParentWindow)\<close>. Reading \<open>config['data'].theme\<close> for
  the window options throws when \<open>data\<close> is missing, before the window exists.
\<close>

definition bridge_create ::
  "env \<Rightarrow> bridge_config \<Rightarrow> nat \<Rightarrow> win \<Rightarrow> state \<Rightarrow> js_error option \<times> state" where
  "bridge_create e config pid p st =
     (case getWindowPosition (screen e) (isMacintosh e) (Some p) 700 800 of
        Inl x \<Rightarrow> (Some x, st)
      | Inr position \<Rightarrow>
          (case cfg_data config of
             None \<Rightarrow> (Some TypeError, st)
           | Some d \<Rightarrow>
               let b = next_window st;
                   wh = windowHeight (platform_win32 e) config;
                   st1 = perform (WinCreate b
                           \<lparr> o_x = None, o_y = None,
                             o_width = (if truthy (cfg_width config) then the (cfg_width config)
                                        else ws_width position),
                             o_height = (if wh \<noteq> 0 then wh else ws_height position),
                             o_title = ''open BrowserWindow'', o_parent = Some p \<rparr>)
                           (st\<lparr>next_window := Suc b\<rparr>);
                   st2 = st1\<lparr>browserWindow := Some b\<rparr>;
                   st3 = perform (WinSetMenuBarVisibility b False) st2;
                   st4 = perform (WinOpenDevTools b) st3;
                   st5 = perform (LogTrace ''issueService#openBrowserWindow: opening BrowserWindow'') st4;
                   st6 = perform (WinLoadURL b (cfg_loadURL config)) st5;
                   st7 = add_listener b EvReadyToShow True (BridgeReadyToShow pid (cfg_winId config)) st6;
                   st8 = add_listener b EvDidFinishLoad False (BridgeDidFinishLoad (stored d)) st7;
                   st9 = (if cfg_events config \<noteq> []
                          then register_events pid (cfg_winId config) b (cfg_events config) st8
                          else add_listener b EvClosed False (BridgeOnClosed pid) st8);
                   st10 = add_listener p EvClosed False (BridgeParentOnClosed pid) st9
               in (None, st10)))"

text \<open>
  \<open>openBrowserWindow\<close> returns a new promise, here its index, after running the executor.
  An exception inside the executor rejects the promise with that exception.
\<close>

definition bridge_live :: "state \<Rightarrow> bool" where
  "bridge_live st \<longleftrightarrow> (case browserWindow st of None \<Rightarrow> False | Some b \<Rightarrow> b \<notin> destroyed st)"

definition openBrowserWindow :: "env \<Rightarrow> bridge_config list \<Rightarrow> state \<Rightarrow> nat \<times> state" where
  "openBrowserWindow e args st =
     (let pid = next_promise st;
          st0 = st\<lparr>next_promise := Suc pid, promises := (promises st)(pid := Pending)\<rparr>
      in (pid,
          if bridge_live st0 then
            (case browserWindow st0 of
               None \<Rightarrow> st0
             | Some b \<Rightarrow>
                 let st1 = (if b \<in> minimized st0 then win_restore b st0 else st0);
                     st2 = perform (WinFocus b) st1
                 in settle pid (Rejected None) st2)
          else
            (case args of
               [] \<Rightarrow> settle pid (Rejected None) st0
             | config # _ \<Rightarrow>
                 let (err, st1) =
                       (if browserWindow st0 = None then
                          let st' = st0\<lparr>browserParentWindow := getFocusedWindow e\<rparr> in
                          (case getFocusedWindow e of
                             None \<Rightarrow> (None, st')
                           | Some p \<Rightarrow> bridge_create e config pid p st')
                        else (None, st0))
                 in (case err of
                       Some x \<Rightarrow> settle pid (Rejected (Some x)) st1
                     | None \<Rightarrow> focus_opt (browserWindow st1) st1))))"

text \<open>
  A message arrives on an \<open>ipcMain\<close> channel the bridge listens on. The listener reads
  \<open>config['winId']\<close> and the parent slot when it runs.
\<close>

fun run_ipc_handler :: "ipc_handler \<Rightarrow> json \<Rightarrow> state \<Rightarrow> state" where
  "run_ipc_handler (BridgeOnMessage pid winId command) a st =
     (if winId = ''certificate'' then settle pid (Resolved (Some a)) st
      else (case browserParentWindow st of
              None \<Rightarrow> st
            | Some p \<Rightarrow> perform (WebSend p ''vscode:runAction'' (PRunAction command ''mouse'' [a])) st))"

fun run_ipc_handlers :: "ipc_handler list \<Rightarrow> json \<Rightarrow> state \<Rightarrow> state" where
  "run_ipc_handlers [] a st = st"
| "run_ipc_handlers (h # hs) a st = run_ipc_handlers hs a (run_ipc_handler h a st)"

definition ipc_message :: "string \<Rightarrow> json \<Rightarrow> state \<Rightarrow> state" where
  "ipc_message channel a st =
     run_ipc_handlers (map snd (filter (\<lambda>(c, _). c = channel) (ipc_listeners st))) a st"

section \<open>The inbound message surface (\<open>registerListeners\<close>)\<close>

text \<open>
  The collaborators the handlers await, each answering with a value or failing:
  the launch service, the diagnostics service, \<open>listProcesses\<close> of \<open>vs/base/node/ps\<close>
  and \<open>isRemoteDiagnosticError\<close>, none of them under src/. \<open>getRemoteDiagnostics\<close>
  takes \<open>includeProcesses\<close> and \<open>includeWorkspaceMetadata\<close>.
\<close>

record collaborators =
  getMainProcessInfo :: "js_error + json"
  getRemoteDiagnostics :: "bool \<Rightarrow> bool \<Rightarrow> js_error + remote_data list"
  getMainProcessId :: "js_error + nat"
  listProcesses :: "nat \<Rightarrow> js_error + json"
  getSystemInfo :: "json \<Rightarrow> remote_data list \<Rightarrow> js_error + json"
  diagnostics_getPerformanceInfo :: "json \<Rightarrow> remote_data list \<Rightarrow> js_error + json"
  isRemoteDiagnosticError :: "remote_data \<Rightarrow> bool"
  windows_of :: "json \<Rightarrow> json"

definition error_name :: "js_error \<Rightarrow> string" where
  "error_name x =
     (case x of
        TypeError \<Rightarrow> ''TypeError''
      | ObjectDestroyed \<Rightarrow> ''TypeError''
      | UnexpectedCommandSource f \<Rightarrow> ''Error''
      | CollaboratorFailure m \<Rightarrow> ''Error'')"

definition error_message :: "js_error \<Rightarrow> string" where
  "error_message x =
     (case x of
        TypeError \<Rightarrow> ''Cannot read property of undefined''
      | ObjectDestroyed \<Rightarrow> ''Object has been destroyed''
      | UnexpectedCommandSource f \<Rightarrow> ''Unexpected command source: '' @ f
      | CollaboratorFailure m \<Rightarrow> m)"

text \<open>An error inside a template literal, \<open>${e}\<close>: its name, a colon, its message.\<close>

definition error_toString :: "js_error \<Rightarrow> string" where
  "error_toString x = error_name x @ '': '' @ error_message x"

text \<open>\<open>await Promise.all([a, b])\<close>: fails when one of the two fails.\<close>

definition promise_all :: "js_error + 'a \<Rightarrow> js_error + 'b \<Rightarrow> js_error + ('a \<times> 'b)" where
  "promise_all a b =
     (case a of
        Inl x \<Rightarrow> Inl x
      | Inr u \<Rightarrow> (case b of Inl x \<Rightarrow> Inl x | Inr v \<Rightarrow> Inr (u, v)))"

text \<open>\<open>vscode:issueSystemInfoRequest\<close>. A failing collaborator rejects the handler.\<close>

definition on_issueSystemInfoRequest ::
  "collaborators \<Rightarrow> ipc_event \<Rightarrow> state \<Rightarrow> js_error option \<times> state" where
  "on_issueSystemInfoRequest c event st =
     (case promise_all (getMainProcessInfo c) (getRemoteDiagnostics c False False) of
        Inl x \<Rightarrow> (Some x, st)
      | Inr (info, remoteData) \<Rightarrow>
          (case getSystemInfo c info remoteData of
             Inl x \<Rightarrow> (Some x, st)
           | Inr msg \<Rightarrow> (None, safeSend event ''vscode:issueSystemInfoResponse'' (PJson msg) st)))"

text \<open>The \<open>forEach\<close> over the remote diagnostics of \<open>vscode:listProcesses\<close>.\<close>

fun remote_entries :: "(remote_data \<Rightarrow> bool) \<Rightarrow> remote_data list \<Rightarrow> process_entry list" where
  "remote_entries isErr [] = []"
| "remote_entries isErr (d # ds) =
     (if isErr d then [\<lparr> pe_name = hostName d, pe_rootProcess = RemoteFailure d \<rparr>]
      else (case processes d of
              Some ps \<Rightarrow> [\<lparr> pe_name = hostName d, pe_rootProcess = ProcessTree ps \<rparr>]
            | None \<Rightarrow> []))
     @ remote_entries isErr ds"

text \<open>
  The \<open>try\<close> block of \<open>vscode:listProcesses\<close>: the array \<open>processes\<close> as it stands when
  the block is left, and the exception caught, if any.
\<close>

definition gather_processes :: "collaborators \<Rightarrow> process_entry list \<times> js_error option" where
  "gather_processes c =
     (case getMainProcessId c of
        Inl x \<Rightarrow> ([], Some x)
      | Inr mainPid \<Rightarrow>
          (case listProcesses c mainPid of
             Inl x \<Rightarrow> ([], Some x)
           | Inr tree \<Rightarrow>
               let localEntry = [\<lparr> pe_name = ''Local'', pe_rootProcess = ProcessTree tree \<rparr>] in
               (case getRemoteDiagnostics c True False of
                  Inl x \<Rightarrow> (localEntry, Some x)
                | Inr remoteDiagnostics \<Rightarrow>
                    (localEntry @ remote_entries (isRemoteDiagnosticError c) remoteDiagnostics, None))))"

definition on_listProcesses ::
  "collaborators \<Rightarrow> ipc_event \<Rightarrow> state \<Rightarrow> js_error option \<times> state" where
  "on_listProcesses c event st =
     (let (ps, caught) = gather_processes c;
          st1 = (case caught of
                   None \<Rightarrow> st
                 | Some x \<Rightarrow> perform (LogError (''Listing processes failed: '' @ error_toString x)) st)
      in (None, safeSend event ''vscode:listProcessesResponse'' (PProcesses ps) st1))"

text \<open>\<open>vscode:issueReporterClipboard\<close>; \<open>response\<close> is the index of the button chosen.\<close>

definition on_issueReporterClipboard :: "nat \<Rightarrow> ipc_event \<Rightarrow> state \<Rightarrow> state" where
  "on_issueReporterClipboard response event st =
     (case issueReporterWindow st of
        None \<Rightarrow> st
      | Some w \<Rightarrow>
          safeSend event ''vscode:issueReporterClipboardResponse'' (PBool (response = 0))
            (perform (ShowMessageBox w ''issueReporterWriteToClipboard'') st))"

text \<open>The \<open>try\<close> block of \<open>getPerformanceInfo\<close>.\<close>

definition performance_try :: "collaborators \<Rightarrow> js_error + json" where
  "performance_try c =
     (case promise_all (getMainProcessInfo c) (getRemoteDiagnostics c True True) of
        Inl x \<Rightarrow> Inl x
      | Inr (info, remoteData) \<Rightarrow> diagnostics_getPerformanceInfo c info remoteData)"

text \<open>\<open>getPerformanceInfo\<close>: the \<open>catch\<close> logs a warning, then rethrows.\<close>

definition getPerformanceInfo :: "collaborators \<Rightarrow> state \<Rightarrow> (js_error + json) \<times> state" where
  "getPerformanceInfo c st =
     (case performance_try c of
        Inl x \<Rightarrow>
          (Inl x, perform (LogWarn (''issueService#getPerformanceInfo '' @ error_message x)) st)
      | Inr performanceInfo \<Rightarrow> (Inr performanceInfo, st))"

text \<open>\<open>vscode:issuePerformanceInfoRequest\<close>: no \<open>catch\<close> around the \<open>await\<close>.\<close>

definition on_issuePerformanceInfoRequest ::
  "collaborators \<Rightarrow> ipc_event \<Rightarrow> state \<Rightarrow> js_error option \<times> state" where
  "on_issuePerformanceInfoRequest c event st =
     (case getPerformanceInfo c st of
        (Inl x, st1) \<Rightarrow> (Some x, st1)
      | (Inr performanceInfo, st1) \<Rightarrow>
          (None, safeSend event ''vscode:issuePerformanceInfoResponse'' (PJson performanceInfo) st1))"

text \<open>
  \<open>vscode:issueReporterConfirmClose\<close>. The slot is read again after the dialog;
  \<open>during\<close> is what other handlers did to the state while the dialog was open.
\<close>

definition on_issueReporterConfirmClose :: "nat \<Rightarrow> (state \<Rightarrow> state) \<Rightarrow> state \<Rightarrow> state" where
  "on_issueReporterConfirmClose response during st =
     (case issueReporterWindow st of
        None \<Rightarrow> st
      | Some w \<Rightarrow>
          let st1 = during (perform (ShowMessageBox w ''confirmCloseIssueReporter'') st) in
          if response = 0 then
            (case issueReporterWindow st1 of
               None \<Rightarrow> st1
             | Some w' \<Rightarrow> (win_destroy w' st1)\<lparr>issueReporterWindow := None\<rparr>)
          else st1)"

text \<open>
  \<open>vscode:workbenchCommand\<close> with \<open>commandInfo = {id, from, args}\<close>. The handler
  tests the parent slot for null only; on a window that has been destroyed
  \<open>parentWindow.webContents.send\<close> throws Electron's "Object has been destroyed".
\<close>

definition on_workbenchCommand :: "string \<Rightarrow> string \<Rightarrow> json list \<Rightarrow> state \<Rightarrow> js_error + state" where
  "on_workbenchCommand cid cfrom cargs st =
     (case (if cfrom = ''issueReporter'' then Inr (issueReporterParentWindow st)
            else if cfrom = ''processExplorer'' then Inr (processExplorerParentWindow st)
            else Inl (UnexpectedCommandSource cfrom)) of
        Inl x \<Rightarrow> Inl x
      | Inr parentWindow \<Rightarrow>
          (case parentWindow of
             None \<Rightarrow> Inr st
           | Some p \<Rightarrow>
               if p \<in> destroyed st then Inl ObjectDestroyed
               else Inr (perform (WebSend p ''vscode:runAction'' (PRunAction cid cfrom cargs)) st)))"

definition on_openExternal :: "string \<Rightarrow> state \<Rightarrow> state" where
  "on_openExternal arg st = perform (OpenExternal arg) st"

definition on_closeIssueReporter :: "state \<Rightarrow> state" where
  "on_closeIssueReporter st =
     (case issueReporterWindow st of None \<Rightarrow> st | Some w \<Rightarrow> perform (WinClose w) st)"

definition on_closeProcessExplorer :: "state \<Rightarrow> state" where
  "on_closeProcessExplorer st =
     (case processExplorerWindow st of None \<Rightarrow> st | Some w \<Rightarrow> perform (WinClose w) st)"

definition on_windowsInfoRequest ::
  "collaborators \<Rightarrow> ipc_event \<Rightarrow> state \<Rightarrow> js_error option \<times> state" where
  "on_windowsInfoRequest c event st =
     (case getMainProcessInfo c of
        Inl x \<Rightarrow> (Some x, st)
      | Inr mainProcessInfo \<Rightarrow>
          (None, safeSend event ''vscode:windowsInfoResponse'' (PJson (windows_of c mainProcessInfo)) st))"

definition on_closeBrowserWindow :: "state \<Rightarrow> state" where
  "on_closeBrowserWindow st =
     (case browserWindow st of None \<Rightarrow> st | Some w \<Rightarrow> perform (WinClose w) st)"

text \<open>The replies a trace holds.\<close>

fun is_reply :: "effect \<Rightarrow> bool" where
  "is_reply (SenderSend _ _ _) = True"
| "is_reply _ = False"

definition replies :: "state \<Rightarrow> effect list" where
  "replies st = filter is_reply (trace st)"

section \<open>Notions and concrete inputs used in the statements\<close>

text \<open>A slot holds a window that has not been destroyed.\<close>

definition slot_live :: "win option \<Rightarrow> state \<Rightarrow> bool" where
  "slot_live slot st \<longleftrightarrow> (case slot of None \<Rightarrow> False | Some p \<Rightarrow> p \<notin> destroyed st)"

text \<open>A display of 1097 by 617, as a 1920 by 1080 panel reports at a scale factor of 1.75.\<close>

definition odd_display :: display where
  "odd_display = \<lparr> bounds = \<lparr> rect_x = 0, rect_y = 0, rect_width = 1097, rect_height = 617 \<rparr> \<rparr>"

text \<open>One display, the main window 0 focused.\<close>

definition example_env :: env where
  "example_env =
     \<lparr> screen = single_screen full_hd, isMacintosh = False, platform_win32 = False,
       getFocusedWindow = Some 0 \<rparr>"

text \<open>The issue reporter was opened from window 0, then window 0 closed.\<close>

definition parent_gone_state :: state where
  "parent_gone_state = window_closed 0 (snd (openReporter example_env ''data'' initial_state))"

text \<open>Collaborators that all answer, and the same with one of them failing.\<close>

definition collab_ok :: collaborators where
  "collab_ok =
     \<lparr> getMainProcessInfo = Inr ''info'',
       getRemoteDiagnostics = (\<lambda>_ _. Inr []),
       getMainProcessId = Inr 42,
       listProcesses = (\<lambda>_. Inr ''tree''),
       getSystemInfo = (\<lambda>_ _. Inr ''system''),
       diagnostics_getPerformanceInfo = (\<lambda>_ _. Inr ''performance''),
       isRemoteDiagnosticError = (\<lambda>d. errorMessage d \<noteq> None),
       windows_of = (\<lambda>i. i) \<rparr>"

definition remote_down :: collaborators where
  "remote_down =
     collab_ok\<lparr>getRemoteDiagnostics := (\<lambda>_ _. Inl (CollaboratorFailure ''remote unreachable''))\<rparr>"

definition diagnostics_down :: collaborators where
  "diagnostics_down =
     collab_ok\<lparr>diagnostics_getPerformanceInfo :=
                 (\<lambda>_ _. Inl (CollaboratorFailure ''diagnostics failed''))\<rparr>"

text \<open>The issue reporter, opened from window 0, is live.\<close>

definition reporter_open_state :: state where
  "reporter_open_state = snd (openReporter example_env ''data'' initial_state)"

definition live_event :: ipc_event where
  "live_event = \<lparr> sender = 7, sender_isDestroyed = False \<rparr>"

definition dead_event :: ipc_event where
  "dead_event = \<lparr> sender = 7, sender_isDestroyed = True \<rparr>"

text \<open>The entries of a failed listing: the error logged, then the reply, if it is sent.\<close>

definition listing_failed :: "js_error \<Rightarrow> effect" where
  "listing_failed x = LogError (''Listing processes failed: '' @ error_toString x)"

definition listing_reply :: "ipc_event \<Rightarrow> process_entry list \<Rightarrow> effect list" where
  "listing_reply event ps =
     (if sender_isDestroyed event then []
      else [SenderSend (sender event) ''vscode:listProcessesResponse'' (PProcesses ps)])"

definition local_entry :: "json \<Rightarrow> process_entry" where
  "local_entry tree = \<lparr> pe_name = ''Local'', pe_rootProcess = ProcessTree tree \<rparr>"

text \<open>
  The close signals of one session: the \<open>close\<close> event of the child window \<open>w\<close>, and
  the one event of the parent window \<open>p\<close> the session listens to: \<open>closed\<close> for the
  issue reporter, \<open>close\<close> for the process explorer. A parent of the process explorer
  that closes without a \<open>close\<close> event is not among these signals; it is
  \<open>window_closed\<close>.
\<close>

datatype close_signal = ChildClose | ParentClose

definition reporter_signal :: "win \<Rightarrow> win \<Rightarrow> close_signal \<Rightarrow> state \<Rightarrow> state" where
  "reporter_signal w p sig st =
     (case sig of ChildClose \<Rightarrow> emit w EvClose st | ParentClose \<Rightarrow> emit p EvClosed st)"

definition explorer_signal :: "win \<Rightarrow> win \<Rightarrow> close_signal \<Rightarrow> state \<Rightarrow> state" where
  "explorer_signal w p sig st =
     (case sig of ChildClose \<Rightarrow> emit w EvClose st | ParentClose \<Rightarrow> emit p EvClose st)"

text \<open>The effects performed between an earlier state and a later one.\<close>

definition new_effects :: "state \<Rightarrow> state \<Rightarrow> effect list" where
  "new_effects st st' = drop (length (trace st)) (trace st')"

text \<open>Effect \<open>a\<close> occurs before the first occurrence of effect \<open>b\<close>, and \<open>b\<close> occurs.\<close>

definition happens_before :: "effect \<Rightarrow> effect \<Rightarrow> effect list \<Rightarrow> bool" where
  "happens_before a b xs \<longleftrightarrow> a \<in> set (takeWhile (\<lambda>e. e \<noteq> b) xs) \<and> b \<in> set xs"

text \<open>
  States as the service builds them: every listener sits on a window that exists, under the
  event its closure is registered for, and disposable stores that are captured, disposed or
  mentioned in the trace have been allocated.
\<close>

fun handler_stores :: "handler \<Rightarrow> nat set" where
  "handler_stores (ReporterOnClose s) = {s}"
| "handler_stores (ReporterParentOnClosed s) = {s}"
| "handler_stores (ExplorerOnClose s) = {s}"
| "handler_stores (ExplorerParentOnClose s) = {s}"
| "handler_stores _ = {}"

fun registered_for :: "handler \<Rightarrow> win_event \<Rightarrow> bool" where
  "registered_for (ReporterOnClose _) ev = (ev = EvClose)"
| "registered_for (ReporterParentOnClosed _) ev = (ev = EvClosed)"
| "registered_for (ExplorerOnClose _) ev = (ev = EvClose)"
| "registered_for (ExplorerParentOnClose _) ev = (ev = EvClose)"
| "registered_for (BridgeReadyToShow _ _) ev = (ev = EvReadyToShow)"
| "registered_for (BridgeTimeout _ _) ev = False"
| "registered_for (BridgeDidFinishLoad _) ev = (ev = EvDidFinishLoad)"
| "registered_for (BridgeOnClosedChannel _ _) ev = (ev = EvClosed)"
| "registered_for (BridgeOnClosed _) ev = (ev = EvClosed)"
| "registered_for (BridgeParentOnClosed _) ev = (ev = EvClosed)"

definition well_formed :: "state \<Rightarrow> bool" where
  "well_formed st \<longleftrightarrow>
     (\<forall>l \<in> set (window_listeners st).
        l_window l < next_window st \<and> registered_for (l_handler l) (l_event l) \<and>
        (\<forall>s \<in> handler_stores (l_handler l). s < next_store st)) \<and>
     (\<forall>s \<in> disposed_stores st. s < next_store st) \<and>
     (\<forall>x \<in> set (trace st). \<forall>s. x = StoreDispose s \<longrightarrow> s < next_store st) \<and>
     (\<forall>h \<in> set (timers st). handler_stores h = {})"

text \<open>A window that is not one of the service's is created: Electron's next id moves on.\<close>

definition window_created_elsewhere :: "state \<Rightarrow> state" where
  "window_created_elsewhere st = st\<lparr>next_window := Suc (next_window st)\<rparr>"

text \<open>Window \<open>p\<close> is not a process-explorer window with a \<open>close\<close> listener of its own.\<close>

definition no_explorer_child :: "win \<Rightarrow> state \<Rightarrow> bool" where
  "no_explorer_child p st \<longleftrightarrow>
     (\<forall>l \<in> set (window_listeners st).
        l_window l = p \<longrightarrow> (case l_handler l of ExplorerOnClose _ \<Rightarrow> False | _ \<Rightarrow> True))"

text \<open>No listener is registered for event \<open>ev\<close> of window \<open>p\<close>.\<close>

definition no_listener_on :: "win \<Rightarrow> win_event \<Rightarrow> state \<Rightarrow> bool" where
  "no_listener_on p ev st \<longleftrightarrow> (\<forall>l \<in> set (window_listeners st). \<not> listens p ev l)"

text \<open>The listeners a session registers when it is created.\<close>

definition reporter_child_listener :: "win \<Rightarrow> nat \<Rightarrow> listener" where
  "reporter_child_listener w s =
     \<lparr> l_window = w, l_event = EvClose, l_once = False, l_handler = ReporterOnClose s \<rparr>"

definition reporter_parent_listener :: "win \<Rightarrow> nat \<Rightarrow> listener" where
  "reporter_parent_listener p s =
     \<lparr> l_window = p, l_event = EvClosed, l_once = False, l_handler = ReporterParentOnClosed s \<rparr>"

definition explorer_child_listener :: "win \<Rightarrow> nat \<Rightarrow> listener" where
  "explorer_child_listener w s =
     \<lparr> l_window = w, l_event = EvClose, l_once = False, l_handler = ExplorerOnClose s \<rparr>"

definition explorer_parent_listener :: "win \<Rightarrow> nat \<Rightarrow> listener" where
  "explorer_parent_listener p s =
     \<lparr> l_window = p, l_event = EvClose, l_once = False, l_handler = ExplorerParentOnClose s \<rparr>"

text \<open>The closures that run when event \<open>ev\<close> is emitted on window \<open>w\<close>.\<close>

definition handlers_on :: "win \<Rightarrow> win_event \<Rightarrow> state \<Rightarrow> handler list" where
  "handlers_on w ev st = map l_handler (filter (listens w ev) (window_listeners st))"

text \<open>The \<open>ipcMain\<close> listeners on one channel.\<close>

definition ipc_handlers_on :: "string \<Rightarrow> state \<Rightarrow> ipc_handler list" where
  "ipc_handlers_on ch st = map snd (filter (\<lambda>(c, _). c = ch) (ipc_listeners st))"

text \<open>
  Invariants of a session with child listener \<open>lc\<close>, parent listener \<open>lp\<close> and store
  \<open>s\<close>, used in the proofs: both listeners stay registered, every listener sits under the
  event of its closure, and only the two capture \<open>s\<close>.
\<close>

definition session_listeners :: "listener \<Rightarrow> listener \<Rightarrow> nat \<Rightarrow> state \<Rightarrow> bool" where
  "session_listeners lc lp s st \<longleftrightarrow>
     lc \<in> set (window_listeners st) \<and> lp \<in> set (window_listeners st) \<and>
     \<not> l_once lc \<and> \<not> l_once lp \<and>
     (\<forall>l \<in> set (window_listeners st).
        registered_for (l_handler l) (l_event l) \<and>
        (s \<in> handler_stores (l_handler l) \<longrightarrow> l = lc \<or> l = lp))"

text \<open>The trace records a release of store \<open>s\<close> exactly when \<open>s\<close> is disposed.\<close>

definition coherent :: "nat \<Rightarrow> state \<Rightarrow> bool" where
  "coherent s st \<longleftrightarrow>
     count_list (trace st) (StoreDispose s) = (if s \<in> disposed_stores st then 1 else 0)"

text \<open>
  The two phases of a session with window \<open>w\<close> and store \<open>s\<close>, seen from position
  \<open>n\<close> of the trace on: still open and untouched; or closed by a parent listener, with
  the release of \<open>s\<close>, once it happens, after the \<open>close()\<close> call on \<open>w\<close>.
\<close>

definition reporter_open :: "win \<Rightarrow> nat \<Rightarrow> nat \<Rightarrow> state \<Rightarrow> bool" where
  "reporter_open w s n st \<longleftrightarrow>
     issueReporterWindow st = Some w \<and> s \<notin> disposed_stores st \<and> n \<le> length (trace st) \<and>
     StoreDispose s \<notin> set (drop n (trace st))"

definition reporter_closed :: "win \<Rightarrow> nat \<Rightarrow> nat \<Rightarrow> state \<Rightarrow> bool" where
  "reporter_closed w s n st \<longleftrightarrow>
     issueReporterWindow st = None \<and> n \<le> length (trace st) \<and>
     WinClose w \<in> set (drop n (trace st)) \<and>
     (if s \<in> disposed_stores st
      then happens_before (WinClose w) (StoreDispose s) (drop n (trace st))
      else StoreDispose s \<notin> set (drop n (trace st)))"

definition explorer_open :: "win \<Rightarrow> nat \<Rightarrow> nat \<Rightarrow> state \<Rightarrow> bool" where
  "explorer_open w s n st \<longleftrightarrow>
     processExplorerWindow st = Some w \<and> s \<notin> disposed_stores st \<and> n \<le> length (trace st) \<and>
     StoreDispose s \<notin> set (drop n (trace st))"

definition explorer_closed :: "win \<Rightarrow> nat \<Rightarrow> nat \<Rightarrow> state \<Rightarrow> bool" where
  "explorer_closed w s n st \<longleftrightarrow>
     processExplorerWindow st = None \<and> n \<le> length (trace st) \<and>
     WinClose w \<in> set (drop n (trace st)) \<and>
     (if s \<in> disposed_stores st
      then happens_before (WinClose w) (StoreDispose s) (drop n (trace st))
      else StoreDispose s \<notin> set (drop n (trace st)))"


text \<open>
  Two bridge configurations: a login window that names \<open>certificate\<close> as the command of
  its channel, and a window whose \<open>winId\<close> is \<open>certificate\<close> with two channels.
\<close>

definition login_config :: bridge_config where
  "login_config =
     \<lparr> cfg_height = None, cfg_width = None, cfg_winId = ''login'',
       cfg_loadURL = ''https://example.org/login'',
       cfg_data = Some \<lparr> theme = ''Dark'', stored = ''{}'' \<rparr>,
       cfg_events = [\<lparr> ev_channel = ''cert-ready'', ev_command = ''certificate'' \<rparr>] \<rparr>"

definition cert_config :: bridge_config where
  "cert_config =
     \<lparr> cfg_height = None, cfg_width = None, cfg_winId = ''certificate'',
       cfg_loadURL = ''https://example.org/cert'',
       cfg_data = Some \<lparr> theme = ''Dark'', stored = ''{}'' \<rparr>,
       cfg_events = [\<lparr> ev_channel = ''cert-ready'', ev_command = ''certificate'' \<rparr>,
                     \<lparr> ev_channel = ''cert-progress'', ev_command = ''showProgress'' \<rparr>] \<rparr>"


definition cert_bridge_state :: state where
  "cert_bridge_state = snd (openBrowserWindow example_env [cert_config] initial_state)"

text \<open>The process explorer, opened from window 0, is live.\<close>

definition explorer_open_state :: state where
  "explorer_open_state = snd (openProcessExplorer example_env ''data'' initial_state)"

text \<open>The live auxiliary window (its id is 1) of each role has been minimized.\<close>

definition reporter_minimized_state :: state where
  "reporter_minimized_state = reporter_open_state\<lparr>minimized := {1}\<rparr>"

definition explorer_minimized_state :: state where
  "explorer_minimized_state = explorer_open_state\<lparr>minimized := {1}\<rparr>"

definition bridge_minimized_state :: state where
  "bridge_minimized_state = cert_bridge_state\<lparr>minimized := {1}\<rparr>"

section \<open>Auxiliary facts\<close>

lemma place_on_within:
  assumes "rect_width r > 0" and "rect_height r > 0"
  shows "within_bounds (place_on r w h) r"
  using assms by (simp add: place_on_def within_bounds_def Let_def field_simps)

lemma place_on_nonneg:
  assumes "rect_width r > 0" and "rect_height r > 0"
  shows "(0 \<le> w \<longrightarrow> 0 \<le> ws_width (place_on r w h)) \<and> (0 \<le> h \<longrightarrow> 0 \<le> ws_height (place_on r w h))"
  using assms by (simp add: place_on_def Let_def)

lemma getWindowPosition_full_hd:
  "getWindowPosition (single_screen full_hd) mac parent 700 800 =
     Inr \<lparr> ws_x = 610, ws_y = 140, ws_width = 700, ws_height = 800 \<rparr>"
  by (simp add: getWindowPosition_def displayToUse_def single_screen_def full_hd_def
      first_display_def place_on_def Let_def)

lemma half_not_integer: "(397 / 2 :: rat) \<notin> \<int>"
proof
  assume "(397 / 2 :: rat) \<in> \<int>"
  then obtain k :: int where "(397 / 2 :: rat) = of_int k"
    by (auto elim: Ints_cases)
  then have "(397::rat) = of_int (2 * k)" by simp
  then have "(397::int) = 2 * k" by (metis of_int_eq_iff of_int_numeral)
  then show False by presburger
qed

lemma safeSend_destroyed: "sender_isDestroyed event \<Longrightarrow> safeSend event channel p st = st"
  by (simp add: safeSend_def)

lemma replies_perform: "replies (perform e st) = replies st @ (if is_reply e then [e] else [])"
  by (simp add: replies_def perform_def)

section \<open>Placement\<close>

text \<open>
  C4. Whenever the display chosen by \<open>getWindowPosition\<close> reports a positive width and a
  positive height, the call returns the centred and clamped state, and that state lies fully
  within the bounds of that display: its origin is not left of or above the display's, and
  its far edges do not pass the display's right and bottom edges (a requested size that is
  not negative stays not negative). On the single display 1920 by 1080 at the origin, a
  request of 700 by 800 is placed at x 610, y 140 with width 700 and height 800.
\<close>

theorem placement_within_display:
  assumes "displayToUse scr mac parent = Some d"
    and "0 < rect_width (bounds d)" and "0 < rect_height (bounds d)"
  shows "getWindowPosition scr mac parent w h = Inr (place_on (bounds d) w h) \<and>
         within_bounds (place_on (bounds d) w h) (bounds d) \<and>
         (0 \<le> w \<longrightarrow> 0 \<le> ws_width (place_on (bounds d) w h)) \<and>
         (0 \<le> h \<longrightarrow> 0 \<le> ws_height (place_on (bounds d) w h)) \<and>
         getWindowPosition (single_screen full_hd) mac parent 700 800 =
           Inr \<lparr> ws_x = 610, ws_y = 140, ws_width = 700, ws_height = 800 \<rparr>"
proof -
  have "getWindowPosition scr mac parent w h = Inr (place_on (bounds d) w h)"
    using assms(1) by (simp add: getWindowPosition_def)
  moreover have "within_bounds (place_on (bounds d) w h) (bounds d)"
    using assms(2,3) by (rule place_on_within)
  moreover note place_on_nonneg [OF assms(2,3), of w h] getWindowPosition_full_hd [of mac parent]
  ultimately show ?thesis by simp
qed

theorem placement_within_display_witness:
  "displayToUse (single_screen full_hd) False (Some 0) = Some full_hd \<and>
   0 < rect_width (bounds full_hd) \<and> 0 < rect_height (bounds full_hd) \<and>
   (0::rat) \<le> 700 \<and> (0::rat) \<le> 800 \<and>
   getWindowPosition (single_screen full_hd) False (Some 0) 700 800 =
     Inr (place_on (bounds full_hd) 700 800) \<and>
   within_bounds (place_on (bounds full_hd) 700 800) (bounds full_hd) \<and>
   0 \<le> ws_width (place_on (bounds full_hd) 700 800) \<and>
   0 \<le> ws_height (place_on (bounds full_hd) 700 800)"
proof -
  have d: "displayToUse (single_screen full_hd) False (Some 0) = Some full_hd"
    by (simp add: displayToUse_def single_screen_def first_display_def)
  have w: "0 < rect_width (bounds full_hd)" and h: "0 < rect_height (bounds full_hd)"
    by (simp_all add: full_hd_def)
  show ?thesis
    using placement_within_display [OF d w h, of 700 800] d w h by simp
qed

text \<open>
  C5, as stated, fails: on a display 1097 wide, the 700 wide issue reporter is centred at
  x = 198.5, which is not an integer.
\<close>

theorem placement_not_integer_counterexample:
  "getWindowPosition (single_screen odd_display) False (Some 0) 700 800 =
     Inr \<lparr> ws_x = 397 / 2, ws_y = 0, ws_width = 700, ws_height = 617 \<rparr> \<and>
   (397 / 2 :: rat) \<notin> \<int>"
  using half_not_integer
  by (simp add: getWindowPosition_def displayToUse_def single_screen_def odd_display_def
      first_display_def place_on_def Let_def)

text \<open>
  C5, amended. For display bounds and requested sizes that are integers, the width and the
  height of the placement are integers, and x and y are integers or half-integers: twice
  x and twice y are integers.
\<close>

theorem placement_half_integers:
  assumes "rect_x r \<in> \<int>" and "rect_y r \<in> \<int>" and "rect_width r \<in> \<int>" and "rect_height r \<in> \<int>"
    and "w \<in> \<int>" and "h \<in> \<int>"
  shows "2 * ws_x (place_on r w h) \<in> \<int> \<and> 2 * ws_y (place_on r w h) \<in> \<int> \<and>
         ws_width (place_on r w h) \<in> \<int> \<and> ws_height (place_on r w h) \<in> \<int>"
proof -
  have a: "2 * (rect_x r + rect_width r / 2 - w / 2) = 2 * rect_x r + rect_width r - w"
    by (simp add: field_simps)
  have b: "2 * (rect_y r + rect_height r / 2 - h / 2) = 2 * rect_y r + rect_height r - h"
    by (simp add: field_simps)
  have a': "2 * rect_x r + rect_width r - w \<in> \<int>"
    using assms by (intro Ints_add Ints_diff Ints_mult) auto
  have b': "2 * rect_y r + rect_height r - h \<in> \<int>"
    using assms by (intro Ints_add Ints_diff Ints_mult) auto
  have c: "2 * rect_x r \<in> \<int>" "2 * rect_y r \<in> \<int>"
    using assms by (auto intro: Ints_mult)
  show ?thesis
    using a a' b b' c assms by (simp add: place_on_def Let_def)
qed

theorem placement_half_integers_witness:
  "rect_x (bounds odd_display) \<in> \<int> \<and> rect_y (bounds odd_display) \<in> \<int> \<and>
   rect_width (bounds odd_display) \<in> \<int> \<and> rect_height (bounds odd_display) \<in> \<int> \<and>
   (700::rat) \<in> \<int> \<and> (800::rat) \<in> \<int> \<and>
   2 * ws_x (place_on (bounds odd_display) 700 800) \<in> \<int> \<and>
   2 * ws_y (place_on (bounds odd_display) 700 800) \<in> \<int> \<and>
   ws_width (place_on (bounds odd_display) 700 800) \<in> \<int> \<and>
   ws_height (place_on (bounds odd_display) 700 800) \<in> \<int>"
proof -
  have b: "rect_x (bounds odd_display) \<in> \<int>" "rect_y (bounds odd_display) \<in> \<int>"
    "rect_width (bounds odd_display) \<in> \<int>" "rect_height (bounds odd_display) \<in> \<int>"
    by (simp_all add: odd_display_def)
  have r: "(700::rat) \<in> \<int>" "(800::rat) \<in> \<int>" by simp_all
  show ?thesis
    using placement_half_integers [OF b r] b r by simp
qed

section \<open>Command routing\<close>

text \<open>
  The four ways the \<open>vscode:workbenchCommand\<close> handler ends: with a null parent slot
  the command is dropped without any effect; with a live window in the slot it is sent to
  that window; with a destroyed window in the slot the send throws; with an unknown
  \<open>from\<close> the handler throws "Unexpected command source".
\<close>

lemma on_workbenchCommand_cases:
  "(issueReporterParentWindow st = None \<longrightarrow>
      on_workbenchCommand cid ''issueReporter'' cargs st = Inr st) \<and>
   (processExplorerParentWindow st = None \<longrightarrow>
      on_workbenchCommand cid ''processExplorer'' cargs st = Inr st) \<and>
   (issueReporterParentWindow st = Some p \<and> p \<notin> destroyed st \<longrightarrow>
      on_workbenchCommand cid ''issueReporter'' cargs st =
        Inr (perform (WebSend p ''vscode:runAction'' (PRunAction cid ''issueReporter'' cargs)) st)) \<and>
   (processExplorerParentWindow st = Some q \<and> q \<notin> destroyed st \<longrightarrow>
      on_workbenchCommand cid ''processExplorer'' cargs st =
        Inr (perform (WebSend q ''vscode:runAction'' (PRunAction cid ''processExplorer'' cargs)) st)) \<and>
   (issueReporterParentWindow st = Some p \<and> p \<in> destroyed st \<longrightarrow>
      on_workbenchCommand cid ''issueReporter'' cargs st = Inl ObjectDestroyed) \<and>
   (processExplorerParentWindow st = Some q \<and> q \<in> destroyed st \<longrightarrow>
      on_workbenchCommand cid ''processExplorer'' cargs st = Inl ObjectDestroyed) \<and>
   (cfrom \<noteq> ''issueReporter'' \<and> cfrom \<noteq> ''processExplorer'' \<longrightarrow>
      on_workbenchCommand cid cfrom cargs st = Inl (UnexpectedCommandSource cfrom))"
  by (simp add: on_workbenchCommand_def)

text \<open>
  C3, evaluated where the code departs from it. The parent slot is assigned when a session
  is opened and never cleared. After the issue reporter was opened from window 0 and
  window 0 has closed, the session has no live parent window, yet the slot still holds
  window 0: a command from \<open>issueReporter\<close> is not dropped silently, the handler calls
  \<open>webContents.send\<close> on the destroyed window and fails with "Object has been
  destroyed". (With a null slot the command is dropped, and an unknown \<open>from\<close> always
  fails with "Unexpected command source": \<open>on_workbenchCommand_cases\<close>.)
\<close>

theorem routing_destroyed_parent_throws:
  "issueReporterParentWindow parent_gone_state = Some 0 \<and>
   0 \<in> destroyed parent_gone_state \<and>
   \<not> slot_live (issueReporterParentWindow parent_gone_state) parent_gone_state \<and>
   on_workbenchCommand ''workbench.action.reloadWindow'' ''issueReporter'' [] parent_gone_state =
     Inl ObjectDestroyed \<and>
   on_workbenchCommand ''workbench.action.reloadWindow'' ''issueReporter'' [] parent_gone_state \<noteq>
     Inr parent_gone_state"
  by (simp add: slot_live_def on_workbenchCommand_def parent_gone_state_def openReporter_def
      example_env_def initial_state_def getWindowPosition_full_hd createBrowserWindow_def Let_def
      perform_def add_listener_def focus_opt_def window_closed_def emit_def listens_def dispose_def)

section \<open>Replies of the inbound message surface\<close>

text \<open>
  C8. The \<open>vscode:listProcesses\<close> handler never fails. When fetching the main process id,
  listing the local processes, or fetching the remote diagnostics fails, the failure is
  logged as an error and the reply still goes out through \<open>safeSend\<close> (that is, unless
  the sender has been destroyed) with what was gathered before the failure: nothing when
  one of the two local steps failed, the local process tree when the remote step failed.
\<close>

theorem listProcesses_partial_reply:
  "fst (on_listProcesses c event st) = None \<and>
   (getMainProcessId c = Inl x \<longrightarrow>
      trace (snd (on_listProcesses c event st)) =
        trace st @ listing_failed x # listing_reply event []) \<and>
   (getMainProcessId c = Inr mainPid \<and> listProcesses c mainPid = Inl x \<longrightarrow>
      trace (snd (on_listProcesses c event st)) =
        trace st @ listing_failed x # listing_reply event []) \<and>
   (getMainProcessId c = Inr mainPid \<and> listProcesses c mainPid = Inr tree \<and>
    getRemoteDiagnostics c True False = Inl x \<longrightarrow>
      trace (snd (on_listProcesses c event st)) =
        trace st @ listing_failed x # listing_reply event [local_entry tree])"
  by (simp add: on_listProcesses_def gather_processes_def listing_failed_def listing_reply_def
      local_entry_def safeSend_def perform_def Let_def split: prod.splits sum.splits)

theorem listProcesses_partial_reply_witness:
  "getMainProcessId (collab_ok\<lparr>getMainProcessId := Inl (CollaboratorFailure ''no pid'')\<rparr>) =
     Inl (CollaboratorFailure ''no pid'') \<and>
   trace (snd (on_listProcesses (collab_ok\<lparr>getMainProcessId := Inl (CollaboratorFailure ''no pid'')\<rparr>)
                 live_event initial_state)) =
     [listing_failed (CollaboratorFailure ''no pid''),
      SenderSend 7 ''vscode:listProcessesResponse'' (PProcesses [])] \<and>
   getMainProcessId (collab_ok\<lparr>listProcesses := (\<lambda>_. Inl (CollaboratorFailure ''ps failed''))\<rparr>) = Inr 42 \<and>
   listProcesses (collab_ok\<lparr>listProcesses := (\<lambda>_. Inl (CollaboratorFailure ''ps failed''))\<rparr>) 42 =
     Inl (CollaboratorFailure ''ps failed'') \<and>
   trace (snd (on_listProcesses (collab_ok\<lparr>listProcesses := (\<lambda>_. Inl (CollaboratorFailure ''ps failed''))\<rparr>)
                 live_event initial_state)) =
     [listing_failed (CollaboratorFailure ''ps failed''),
      SenderSend 7 ''vscode:listProcessesResponse'' (PProcesses [])] \<and>
   getMainProcessId remote_down = Inr 42 \<and> listProcesses remote_down 42 = Inr ''tree'' \<and>
   getRemoteDiagnostics remote_down True False = Inl (CollaboratorFailure ''remote unreachable'') \<and>
   fst (on_listProcesses remote_down live_event initial_state) = None \<and>
   trace (snd (on_listProcesses remote_down live_event initial_state)) =
     [listing_failed (CollaboratorFailure ''remote unreachable''),
      SenderSend 7 ''vscode:listProcessesResponse'' (PProcesses [local_entry ''tree''])]"
proof -
  let ?c1 = "collab_ok\<lparr>getMainProcessId := Inl (CollaboratorFailure ''no pid'')\<rparr>"
  let ?c2 = "collab_ok\<lparr>listProcesses := (\<lambda>_. Inl (CollaboratorFailure ''ps failed''))\<rparr>"
  have h1: "getMainProcessId ?c1 = Inl (CollaboratorFailure ''no pid'')" by simp
  have h2: "getMainProcessId ?c2 = Inr 42 \<and> listProcesses ?c2 42 = Inl (CollaboratorFailure ''ps failed'')"
    by (simp add: collab_ok_def)
  have h3: "getMainProcessId remote_down = Inr 42 \<and> listProcesses remote_down 42 = Inr ''tree'' \<and>
    getRemoteDiagnostics remote_down True False = Inl (CollaboratorFailure ''remote unreachable'')"
    by (simp add: remote_down_def collab_ok_def)
  have t: "trace initial_state = []" by (simp add: initial_state_def)
  have r: "\<And>ps. listing_reply live_event ps = [SenderSend 7 ''vscode:listProcessesResponse'' (PProcesses ps)]"
    by (simp add: listing_reply_def live_event_def)
  show ?thesis
    using listProcesses_partial_reply [of ?c1 live_event initial_state "CollaboratorFailure ''no pid''" 0 "''''"]
      listProcesses_partial_reply [of ?c2 live_event initial_state "CollaboratorFailure ''ps failed''" 42 "''''"]
      listProcesses_partial_reply [of remote_down live_event initial_state "CollaboratorFailure ''remote unreachable''" 42 "''tree''"]
      h1 h2 h3 t r
    by simp
qed

text \<open>
  C9, as stated, fails: when the diagnostics collaborator fails, the request handler
  rejects and sends nothing, so the requester, although alive, receives no response at all.
\<close>

theorem performanceInfo_no_response_counterexample:
  "on_issuePerformanceInfoRequest diagnostics_down live_event initial_state =
     (Some (CollaboratorFailure ''diagnostics failed''),
      perform (LogWarn ''issueService#getPerformanceInfo diagnostics failed'') initial_state) \<and>
   \<not> sender_isDestroyed live_event \<and>
   replies (snd (on_issuePerformanceInfoRequest diagnostics_down live_event initial_state)) = []"
  by (simp add: on_issuePerformanceInfoRequest_def getPerformanceInfo_def performance_try_def
      promise_all_def diagnostics_down_def collab_ok_def live_event_def error_message_def
      replies_def perform_def initial_state_def)

text \<open>
  C9, amended. When the \<open>try\<close> block of \<open>getPerformanceInfo\<close> fails, the failure is
  logged as a warning and then rethrown to the \<open>vscode:issuePerformanceInfoRequest\<close>
  handler, which rejects with it; no \<open>vscode:issuePerformanceInfoResponse\<close> or other
  reply is sent to the requester.
\<close>

theorem performanceInfo_failure_logged_rethrown:
  assumes "performance_try c = Inl x"
  shows "getPerformanceInfo c st =
           (Inl x, perform (LogWarn (''issueService#getPerformanceInfo '' @ error_message x)) st) \<and>
         on_issuePerformanceInfoRequest c event st =
           (Some x, perform (LogWarn (''issueService#getPerformanceInfo '' @ error_message x)) st) \<and>
         replies (snd (on_issuePerformanceInfoRequest c event st)) = replies st"
  using assms
  by (simp add: on_issuePerformanceInfoRequest_def getPerformanceInfo_def replies_perform)

theorem performanceInfo_failure_logged_rethrown_witness:
  "performance_try diagnostics_down = Inl (CollaboratorFailure ''diagnostics failed'') \<and>
   getPerformanceInfo diagnostics_down initial_state =
     (Inl (CollaboratorFailure ''diagnostics failed''),
      perform (LogWarn ''issueService#getPerformanceInfo diagnostics failed'') initial_state) \<and>
   on_issuePerformanceInfoRequest diagnostics_down live_event initial_state =
     (Some (CollaboratorFailure ''diagnostics failed''),
      perform (LogWarn ''issueService#getPerformanceInfo diagnostics failed'') initial_state) \<and>
   replies (snd (on_issuePerformanceInfoRequest diagnostics_down live_event initial_state)) =
     replies initial_state"
proof -
  have h: "performance_try diagnostics_down = Inl (CollaboratorFailure ''diagnostics failed'')"
    by (simp add: performance_try_def promise_all_def diagnostics_down_def collab_ok_def)
  show ?thesis
    using performanceInfo_failure_logged_rethrown [OF h, of initial_state live_event] h
    by (simp add: error_message_def replies_perform)
qed

text \<open>
  C10. With a null issue-reporter slot, the clipboard request shows no dialog and sends no
  reply: the handler finishes without any effect. And when the sender of a request has been
  destroyed by the time the reply is ready, \<open>safeSend\<close> does nothing, so none of the
  five replying handlers adds a reply, and each handler ends as it would with a live sender.
\<close>

theorem replies_suppressed:
  "(issueReporterWindow st = None \<longrightarrow> on_issueReporterClipboard response event st = st) \<and>
   (sender_isDestroyed event \<longrightarrow>
      safeSend event channel p st = st \<and>
      replies (snd (on_issueSystemInfoRequest c event st)) = replies st \<and>
      replies (snd (on_listProcesses c event st)) = replies st \<and>
      replies (on_issueReporterClipboard response event st) = replies st \<and>
      replies (snd (on_issuePerformanceInfoRequest c event st)) = replies st \<and>
      replies (snd (on_windowsInfoRequest c event st)) = replies st \<and>
      fst (on_issueSystemInfoRequest c event st) =
        fst (on_issueSystemInfoRequest c (event\<lparr>sender_isDestroyed := False\<rparr>) st) \<and>
      fst (on_listProcesses c event st) = None \<and>
      fst (on_issuePerformanceInfoRequest c event st) =
        fst (on_issuePerformanceInfoRequest c (event\<lparr>sender_isDestroyed := False\<rparr>) st) \<and>
      fst (on_windowsInfoRequest c event st) =
        fst (on_windowsInfoRequest c (event\<lparr>sender_isDestroyed := False\<rparr>) st))"
  by (auto simp add: on_issueReporterClipboard_def on_issueSystemInfoRequest_def on_listProcesses_def
      on_issuePerformanceInfoRequest_def on_windowsInfoRequest_def getPerformanceInfo_def
      safeSend_def replies_perform Let_def split: option.splits sum.splits prod.splits)

theorem replies_suppressed_witness:
  "issueReporterWindow initial_state = None \<and>
   on_issueReporterClipboard 0 live_event initial_state = initial_state \<and>
   sender_isDestroyed dead_event \<and>
   safeSend dead_event ''vscode:windowsInfoResponse'' (PJson ''info'') reporter_open_state =
     reporter_open_state \<and>
   replies (snd (on_listProcesses collab_ok dead_event reporter_open_state)) =
     replies reporter_open_state \<and>
   replies (on_issueReporterClipboard 0 dead_event reporter_open_state) =
     replies reporter_open_state \<and>
   fst (on_listProcesses collab_ok dead_event reporter_open_state) = None"
proof -
  have n: "issueReporterWindow initial_state = None" by (simp add: initial_state_def)
  have d: "sender_isDestroyed dead_event" by (simp add: dead_event_def)
  show ?thesis
    using replies_suppressed [of initial_state 0 live_event "[]" "PBool True" collab_ok]
      replies_suppressed [of reporter_open_state 0 dead_event "''vscode:windowsInfoResponse''"
        "PJson ''info''" collab_ok] n d
    by simp
qed

section \<open>Frame properties of the close listeners\<close>

lemmas handler_defs = dispose_def perform_def settle_def ipc_removeAllListeners_def Let_def

lemma run_handler_listeners [simp]: "window_listeners (run_handler h st) = window_listeners st"
  by (cases h) (simp_all add: handler_defs split: option.splits)

lemma run_handlers_listeners [simp]: "window_listeners (run_handlers hs st) = window_listeners st"
  by (induction hs arbitrary: st) simp_all

lemma run_handlers_invariant:
  assumes "\<And>h s. h \<in> set hs \<Longrightarrow> P s \<Longrightarrow> P (run_handler h s)" and "P st"
  shows "P (run_handlers hs st)"
  using assms by (induction hs arbitrary: st) simp_all

lemma run_handler_reporter_none:
  "issueReporterWindow st = None \<Longrightarrow> issueReporterWindow (run_handler h st) = None"
  by (cases h) (simp_all add: handler_defs split: option.splits)

lemma run_handler_explorer_none:
  "processExplorerWindow st = None \<Longrightarrow> processExplorerWindow (run_handler h st) = None"
  by (cases h) (simp_all add: handler_defs split: option.splits)

lemma run_handler_coherent: "coherent s st \<Longrightarrow> coherent s (run_handler h st)"
  by (cases h) (auto simp add: coherent_def handler_defs split: option.splits)

lemma run_handler_disposed_mono: "s \<in> disposed_stores st \<Longrightarrow> s \<in> disposed_stores (run_handler h st)"
  by (cases h) (auto simp add: handler_defs split: option.splits)

section \<open>Phases of a session under close signals\<close>

lemma happens_before_append:
  "happens_before a b xs \<Longrightarrow> happens_before a b (xs @ ys)"
  by (auto simp add: happens_before_def takeWhile_append)

lemma happens_before_snoc2:
  "b \<notin> set xs \<Longrightarrow> a \<noteq> b \<Longrightarrow> happens_before a b (xs @ [a, b])"
  by (auto simp add: happens_before_def takeWhile_append)

lemma happens_before_after:
  "a \<in> set xs \<Longrightarrow> b \<notin> set xs \<Longrightarrow> b \<in> set ys \<Longrightarrow> happens_before a b (xs @ ys)"
  by (auto simp add: happens_before_def takeWhile_append)

lemma reporter_closed_keep:
  "reporter_closed w s n st \<Longrightarrow> reporter_closed w s n (run_handler h st)"
  by (cases h)
     (auto simp add: reporter_closed_def handler_defs happens_before_append happens_before_after
           split: option.splits if_splits)

lemma reporter_open_step:
  "reporter_open w s n st \<Longrightarrow> (case h of ReporterOnClose _ \<Rightarrow> False | _ \<Rightarrow> True) \<Longrightarrow>
   h = ReporterParentOnClosed s \<or> s \<notin> handler_stores h \<Longrightarrow>
   reporter_open w s n (run_handler h st) \<or> reporter_closed w s n (run_handler h st)"
  by (cases h)
     (auto simp add: reporter_open_def reporter_closed_def handler_defs happens_before_snoc2
           split: option.splits if_splits)

lemma reporter_open_establish:
  "reporter_open w s n st \<Longrightarrow> reporter_closed w s n (run_handler (ReporterParentOnClosed s) st)"
  by (auto simp add: reporter_open_def reporter_closed_def handler_defs happens_before_snoc2
           split: option.splits if_splits)

lemma run_handlers_reach:
  assumes "h0 \<in> set hs"
    and "\<And>h s. h \<in> set hs \<Longrightarrow> A s \<Longrightarrow> A (run_handler h s) \<or> B (run_handler h s)"
    and "\<And>s. A s \<Longrightarrow> B (run_handler h0 s)"
    and "\<And>h s. h \<in> set hs \<Longrightarrow> B s \<Longrightarrow> B (run_handler h s)"
    and "A st \<or> B st"
  shows "B (run_handlers hs st)"
  using assms
proof (induction hs arbitrary: st)
  case Nil then show ?case by simp
next
  case (Cons h hs)
  show ?case
  proof (cases "B (run_handler h st)")
    case True
    have "B (run_handlers hs (run_handler h st))"
      by (rule run_handlers_invariant [where P = B]) (use Cons.prems(4) True in auto)
    then show ?thesis by simp
  next
    case False
    then have nb: "\<not> B st" using Cons.prems(4) [of h st] by auto
    then have a: "A st" using Cons.prems(5) by simp
    then have a': "A (run_handler h st)" using Cons.prems(2) [of h st] False by auto
    have "h \<noteq> h0" using Cons.prems(3) [OF a] False by auto
    then have "h0 \<in> set hs" using Cons.prems(1) by simp
    then have "B (run_handlers hs (run_handler h st))"
      using Cons.IH [of "run_handler h st"] Cons.prems(2,3,4) a' by simp
    then show ?thesis by simp
  qed
qed

section \<open>Emitting a window event\<close>

lemma emit_alt:
  "emit w ev st =
     run_handlers (handlers_on w ev st)
       (st\<lparr>window_listeners := filter (\<lambda>l. \<not> (listens w ev l \<and> l_once l)) (window_listeners st)\<rparr>)"
  by (simp add: emit_def handlers_on_def Let_def)

lemma emit_listeners:
  "window_listeners (emit w ev st) =
     filter (\<lambda>l. \<not> (listens w ev l \<and> l_once l)) (window_listeners st)"
  by (simp add: emit_alt)

lemma emit_session_listeners:
  "session_listeners lc lp s st \<Longrightarrow> session_listeners lc lp s (emit w ev st)"
  by (auto simp add: session_listeners_def emit_listeners)

lemma handlers_on_registered:
  "session_listeners lc lp s st \<Longrightarrow> h \<in> set (handlers_on w ev st) \<Longrightarrow>
   registered_for h ev \<and> (s \<in> handler_stores h \<longrightarrow> h = l_handler lc \<or> h = l_handler lp)"
  by (auto simp add: session_listeners_def handlers_on_def listens_def)

lemma handlers_on_member:
  "l \<in> set (window_listeners st) \<Longrightarrow> l_handler l \<in> set (handlers_on (l_window l) (l_event l) st)"
  by (auto simp add: handlers_on_def listens_def)

lemma emit_invariant:
  assumes "\<And>h s. h \<in> set (handlers_on w ev st) \<Longrightarrow> P s \<Longrightarrow> P (run_handler h s)"
    and "P (st\<lparr>window_listeners := filter (\<lambda>l. \<not> (listens w ev l \<and> l_once l)) (window_listeners st)\<rparr>)"
  shows "P (emit w ev st)"
  unfolding emit_alt using assms by (rule run_handlers_invariant)

lemma emit_reach:
  assumes "h0 \<in> set (handlers_on w ev st)"
    and "\<And>h s. h \<in> set (handlers_on w ev st) \<Longrightarrow> A s \<Longrightarrow> A (run_handler h s) \<or> B (run_handler h s)"
    and "\<And>s. A s \<Longrightarrow> B (run_handler h0 s)"
    and "\<And>h s. h \<in> set (handlers_on w ev st) \<Longrightarrow> B s \<Longrightarrow> B (run_handler h s)"
    and "A (st\<lparr>window_listeners := filter (\<lambda>l. \<not> (listens w ev l \<and> l_once l)) (window_listeners st)\<rparr>) \<or>
         B (st\<lparr>window_listeners := filter (\<lambda>l. \<not> (listens w ev l \<and> l_once l)) (window_listeners st)\<rparr>)"
  shows "B (emit w ev st)"
  unfolding emit_alt using assms by (rule run_handlers_reach)

lemma emit_coherent: "coherent s st \<Longrightarrow> coherent s (emit w ev st)"
proof (rule emit_invariant [where P = "coherent s"])
  fix h and x :: state assume "coherent s x"
  then show "coherent s (run_handler h x)" by (rule run_handler_coherent)
qed (simp add: coherent_def)

lemma emit_disposed_mono: "s \<in> disposed_stores st \<Longrightarrow> s \<in> disposed_stores (emit w ev st)"
  by (rule emit_invariant [where P = "\<lambda>x::state. s \<in> disposed_stores x"]) (simp_all add: run_handler_disposed_mono)

lemma emit_reporter_none: "issueReporterWindow st = None \<Longrightarrow> issueReporterWindow (emit w ev st) = None"
  by (rule emit_invariant [where P = "\<lambda>x::state. issueReporterWindow x = None"]) (simp_all add: run_handler_reporter_none)

lemma emit_reporter_closed: "reporter_closed w s n st \<Longrightarrow> reporter_closed w s n (emit w' ev st)"
proof (rule emit_invariant [where P = "reporter_closed w s n"])
  fix h and x :: state assume "reporter_closed w s n x"
  then show "reporter_closed w s n (run_handler h x)" by (rule reporter_closed_keep)
qed (simp add: reporter_closed_def)

lemma emit_child_close_reporter:
  assumes "ReporterOnClose s \<in> set (handlers_on w ev st)"
  shows "issueReporterWindow (emit w ev st) = None \<and> s \<in> disposed_stores (emit w ev st)"
proof -
  let ?B = "\<lambda>x::state. issueReporterWindow x = None \<and> s \<in> disposed_stores x"
  show ?thesis
  proof (rule emit_reach [where A = "\<lambda>_::state. True" and B = ?B and ?h0.0 = "ReporterOnClose s"])
    show "ReporterOnClose s \<in> set (handlers_on w ev st)" by (rule assms)
  next
    fix x :: state show "?B (run_handler (ReporterOnClose s) x)" by (simp add: handler_defs)
  next
    fix h and x :: state assume "?B x"
    then show "?B (run_handler h x)" by (simp add: run_handler_reporter_none run_handler_disposed_mono)
  qed simp_all
qed

lemma emit_parent_closed_reporter_none:
  assumes "ReporterParentOnClosed s \<in> set (handlers_on p ev st)"
  shows "issueReporterWindow (emit p ev st) = None"
proof (rule emit_reach [where A = "\<lambda>_::state. True" and B = "\<lambda>x::state. issueReporterWindow x = None" and ?h0.0 = "ReporterParentOnClosed s"])
  show "ReporterParentOnClosed s \<in> set (handlers_on p ev st)" by (rule assms)
next
  fix x :: state show "issueReporterWindow (run_handler (ReporterParentOnClosed s) x) = None"
    by (simp add: handler_defs split: option.splits)
next
  fix h and x :: state assume "issueReporterWindow x = None"
  then show "issueReporterWindow (run_handler h x) = None" by (rule run_handler_reporter_none)
qed simp_all

lemma emit_parent_closed_reporter_phase:
  assumes sl: "session_listeners lc lp s st" and lc: "l_handler lc = ReporterOnClose s"
    and lp: "l_handler lp = ReporterParentOnClosed s" "l_window lp = p" "l_event lp = EvClosed"
    and op: "reporter_open w s n st"
  shows "reporter_closed w s n (emit p EvClosed st)"
proof (rule emit_reach [where A = "reporter_open w s n" and B = "reporter_closed w s n"
        and ?h0.0 = "ReporterParentOnClosed s"])
  show "ReporterParentOnClosed s \<in> set (handlers_on p EvClosed st)"
    using handlers_on_member [of lp st] sl lp by (simp add: session_listeners_def)
next
  fix h and x :: state assume h: "h \<in> set (handlers_on p EvClosed st)" and x: "reporter_open w s n x"
  have r: "registered_for h EvClosed \<and> (s \<in> handler_stores h \<longrightarrow> h = l_handler lc \<or> h = l_handler lp)"
    using handlers_on_registered [OF sl h] .
  then have 1: "(case h of ReporterOnClose _ \<Rightarrow> False | _ \<Rightarrow> True)" by (cases h) auto
  have 2: "h = ReporterParentOnClosed s \<or> s \<notin> handler_stores h"
    using r lc lp 1 by (cases h) auto
  show "reporter_open w s n (run_handler h x) \<or> reporter_closed w s n (run_handler h x)"
    using reporter_open_step [OF x 1 2] .
next
  fix x :: state assume "reporter_open w s n x"
  then show "reporter_closed w s n (run_handler (ReporterParentOnClosed s) x)"
    by (rule reporter_open_establish)
next
  fix h and x :: state assume "reporter_closed w s n x"
  then show "reporter_closed w s n (run_handler h x)" by (rule reporter_closed_keep)
next
  show "reporter_open w s n (st\<lparr>window_listeners := filter (\<lambda>l. \<not> (listens p EvClosed l \<and> l_once l)) (window_listeners st)\<rparr>) \<or>
        reporter_closed w s n (st\<lparr>window_listeners := filter (\<lambda>l. \<not> (listens p EvClosed l \<and> l_once l)) (window_listeners st)\<rparr>)"
    using op by (simp add: reporter_open_def)
qed

section \<open>The issue reporter session\<close>

lemma openReporter_live:
  "issueReporterWindow st = Some x \<Longrightarrow> openReporter e d st = (None, perform (WinFocus x) st)"
  by (simp add: openReporter_def focus_opt_def)

lemma openReporter_creates:
  assumes "issueReporterWindow st = None" and "getFocusedWindow e = Some p"
    and "openReporter e d st = (None, st1)"
  shows "issueReporterWindow st1 = Some (next_window st)"
    and "window_listeners st1 =
           window_listeners st @ [reporter_child_listener (next_window st) (next_store st),
                                  reporter_parent_listener p (next_store st)]"
    and "disposed_stores st1 = disposed_stores st"
    and "\<exists>xs. trace st1 = trace st @ xs \<and> (\<forall>s. StoreDispose s \<notin> set xs)"
  using assms
  by (auto simp add: openReporter_def createBrowserWindow_def focus_opt_def perform_def
      add_listener_def reporter_child_listener_def reporter_parent_listener_def Let_def
      split: sum.splits)

lemma fold_invariant:
  assumes "\<And>x s. P s \<Longrightarrow> P (f x s)" and "P st"
  shows "P (fold f xs st)"
  using assms by (induction xs arbitrary: st) simp_all

lemma fold_reach:
  assumes "x0 \<in> set xs" and "\<And>x s. P s \<Longrightarrow> P (f x s)" and "\<And>s. P s \<Longrightarrow> Q (f x0 s)"
    and "\<And>x s. P s \<Longrightarrow> Q s \<Longrightarrow> Q (f x s)" and "P st"
  shows "Q (fold f xs st)"
  using assms
proof (induction xs arbitrary: st)
  case Nil then show ?case by simp
next
  case (Cons x xs)
  show ?case
  proof (cases "x = x0")
    case True
    have "P (f x st) \<and> Q (f x st)" using Cons.prems True by simp
    then have "P (fold f xs (f x st)) \<and> Q (fold f xs (f x st))"
      by (rule fold_invariant [where P = "\<lambda>s. P s \<and> Q s", rotated]) (use Cons.prems in auto)
    then show ?thesis by simp
  next
    case False
    then have "x0 \<in> set xs" using Cons.prems(1) by simp
    then have "Q (fold f xs (f x st))"
      using Cons.IH [of "f x st"] Cons.prems by simp
    then show ?thesis by simp
  qed
qed

lemma reporter_close_signals:
  assumes wf: "well_formed st" and none: "issueReporterWindow st = None"
    and foc: "getFocusedWindow e = Some p"
    and op: "openReporter e d st = (None, st1)"
  shows "issueReporterWindow st1 = Some (next_window st)"
    and "sigs \<noteq> [] \<Longrightarrow>
           issueReporterWindow (fold (reporter_signal (next_window st) p) sigs st1) = None"
    and "count_list (trace (fold (reporter_signal (next_window st) p) sigs st1))
           (StoreDispose (next_store st)) \<le> 1"
    and "ChildClose \<in> set sigs \<Longrightarrow>
           count_list (trace (fold (reporter_signal (next_window st) p) sigs st1))
             (StoreDispose (next_store st)) = 1"
    and "happens_before (WinClose (next_window st)) (StoreDispose (next_store st))
           (new_effects st1
              (fold (reporter_signal (next_window st) p) (ParentClose # ChildClose # sigs) st1))"
    and "no_listener_on p EvClosed st \<Longrightarrow>
           new_effects st1 (emit p EvClosed st1) =
             [WinClose (next_window st), StoreDispose (next_store st)]"
proof -
  let ?w = "next_window st" and ?s = "next_store st"
  let ?lc = "reporter_child_listener ?w ?s" and ?lp = "reporter_parent_listener p ?s"
  let ?n = "length (trace st1)"
  let ?sig = "reporter_signal ?w p"
  note cr = openReporter_creates [OF none foc op]
  show slot: "issueReporterWindow st1 = Some ?w" by (rule cr(1))
  have fresh: "?s \<notin> disposed_stores st" "StoreDispose ?s \<notin> set (trace st)"
    using wf by (auto simp add: well_formed_def)
  have sl: "session_listeners ?lc ?lp ?s st1"
    using wf cr(2)
    by (auto simp add: session_listeners_def well_formed_def reporter_child_listener_def
        reporter_parent_listener_def)
  have coh: "coherent ?s st1"
    using cr(3,4) fresh by (auto simp add: coherent_def count_list_0_iff)
  have opn: "reporter_open ?w ?s ?n st1"
    using slot cr(3) fresh by (simp add: reporter_open_def)
  define G where "G = (\<lambda>x. session_listeners ?lc ?lp ?s x \<and> coherent ?s x)"
  have G1: "G st1" using sl coh by (simp add: G_def)
  have Gstep: "\<And>sig x. G x \<Longrightarrow> G (?sig sig x)"
    by (auto simp add: G_def reporter_signal_def emit_session_listeners emit_coherent
        split: close_signal.splits)
  have hc: "\<And>x. G x \<Longrightarrow> ReporterOnClose ?s \<in> set (handlers_on ?w EvClose x)"
    using handlers_on_member [of ?lc]
    by (auto simp add: G_def session_listeners_def reporter_child_listener_def)
  have hp: "\<And>x. G x \<Longrightarrow> ReporterParentOnClosed ?s \<in> set (handlers_on p EvClosed x)"
    using handlers_on_member [of ?lp]
    by (auto simp add: G_def session_listeners_def reporter_parent_listener_def)
  have null1: "\<And>sig x. G x \<Longrightarrow> issueReporterWindow (?sig sig x) = None"
    using emit_child_close_reporter [OF hc] emit_parent_closed_reporter_none [OF hp]
    by (auto simp add: reporter_signal_def split: close_signal.splits)
  have nullk: "\<And>sig x. issueReporterWindow x = None \<Longrightarrow> issueReporterWindow (?sig sig x) = None"
    by (auto simp add: reporter_signal_def emit_reporter_none split: close_signal.splits)
  have Gfold: "\<And>sigs x. G x \<Longrightarrow> G (fold ?sig sigs x)"
    by (rule fold_invariant [where P = G]) (use Gstep in auto)
  show "issueReporterWindow (fold ?sig sigs st1) = None" if "sigs \<noteq> []"
  proof -
    from that obtain sg rest where sigs: "sigs = sg # rest" by (cases sigs) auto
    have "issueReporterWindow (fold ?sig rest (?sig sg st1)) = None"
      by (rule fold_invariant [where P = "\<lambda>x::state. issueReporterWindow x = None"])
         (use nullk null1 [OF G1] in auto)
    then show ?thesis by (simp add: sigs)
  qed
  have cohf: "coherent ?s (fold ?sig sigs st1)" using Gfold [OF G1] by (simp add: G_def)
  then show "count_list (trace (fold ?sig sigs st1)) (StoreDispose ?s) \<le> 1"
    by (simp add: coherent_def)
  have dispc: "\<And>x. G x \<Longrightarrow> ?s \<in> disposed_stores (?sig ChildClose x)"
    using emit_child_close_reporter [OF hc] by (simp add: reporter_signal_def)
  have dispk: "\<And>sig x. ?s \<in> disposed_stores x \<Longrightarrow> ?s \<in> disposed_stores (?sig sig x)"
    by (auto simp add: reporter_signal_def emit_disposed_mono split: close_signal.splits)
  have dispf: "\<And>sigs x. G x \<Longrightarrow> ChildClose \<in> set sigs \<Longrightarrow> ?s \<in> disposed_stores (fold ?sig sigs x)"
    by (rule fold_reach [where P = G and ?x0.0 = ChildClose])
       (use Gstep dispc dispk in auto)
  show "count_list (trace (fold ?sig sigs st1)) (StoreDispose ?s) = 1" if "ChildClose \<in> set sigs"
    using dispf [OF G1 that] cohf by (simp add: coherent_def)
  show "happens_before (WinClose ?w) (StoreDispose ?s)
          (new_effects st1 (fold ?sig (ParentClose # ChildClose # sigs) st1))"
  proof -
    let ?a = "?sig ParentClose st1"
    let ?b = "?sig ChildClose ?a"
    let ?c = "fold ?sig sigs ?b"
    have closed_a: "reporter_closed ?w ?s ?n ?a"
      using emit_parent_closed_reporter_phase [OF sl _ _ _ _ opn, of p]
      by (simp add: reporter_signal_def reporter_child_listener_def reporter_parent_listener_def)
    have closedk: "\<And>sig x. reporter_closed ?w ?s ?n x \<Longrightarrow> reporter_closed ?w ?s ?n (?sig sig x)"
      by (auto simp add: reporter_signal_def emit_reporter_closed split: close_signal.splits)
    have "reporter_closed ?w ?s ?n ?c"
      by (rule fold_invariant [where P = "reporter_closed ?w ?s ?n"])
         (use closedk closed_a in auto)
    moreover have "?s \<in> disposed_stores ?c"
      by (rule fold_invariant [where P = "\<lambda>x::state. ?s \<in> disposed_stores x"])
         (use dispk dispc [OF Gstep [OF G1]] in auto)
    ultimately show ?thesis by (simp add: reporter_closed_def new_effects_def)
  qed
  show "new_effects st1 (emit p EvClosed st1) = [WinClose ?w, StoreDispose ?s]"
    if "no_listener_on p EvClosed st"
  proof -
    have "handlers_on p EvClosed st1 = [ReporterParentOnClosed ?s]"
      using that cr(2)
      by (auto simp add: handlers_on_def no_listener_on_def listens_def filter_empty_conv
          reporter_child_listener_def reporter_parent_listener_def)
    then show ?thesis
      using slot cr(3) fresh
      by (simp add: emit_alt new_effects_def handler_defs)
  qed
qed

section \<open>The process explorer session\<close>

lemma explorer_closed_keep:
  "explorer_closed w s n st \<Longrightarrow> explorer_closed w s n (run_handler h st)"
  by (cases h)
     (auto simp add: explorer_closed_def handler_defs happens_before_append happens_before_after
           split: option.splits if_splits)

lemma explorer_open_step:
  "explorer_open w s n st \<Longrightarrow> (case h of ExplorerOnClose _ \<Rightarrow> False | _ \<Rightarrow> True) \<Longrightarrow>
   h = ExplorerParentOnClose s \<or> s \<notin> handler_stores h \<Longrightarrow>
   explorer_open w s n (run_handler h st) \<or> explorer_closed w s n (run_handler h st)"
  by (cases h)
     (auto simp add: explorer_open_def explorer_closed_def handler_defs happens_before_snoc2
           split: option.splits if_splits)

lemma explorer_open_establish:
  "explorer_open w s n st \<Longrightarrow> explorer_closed w s n (run_handler (ExplorerParentOnClose s) st)"
  by (auto simp add: explorer_open_def explorer_closed_def handler_defs happens_before_snoc2
           split: option.splits if_splits)

lemma emit_no_explorer_child: "no_explorer_child p st \<Longrightarrow> no_explorer_child p (emit w ev st)"
  by (auto simp add: no_explorer_child_def emit_listeners)

lemma handlers_on_no_explorer_child:
  "no_explorer_child p st \<Longrightarrow> h \<in> set (handlers_on p ev st) \<Longrightarrow>
   (case h of ExplorerOnClose _ \<Rightarrow> False | _ \<Rightarrow> True)"
  by (auto simp add: no_explorer_child_def handlers_on_def listens_def)

lemma emit_explorer_none: "processExplorerWindow st = None \<Longrightarrow> processExplorerWindow (emit w ev st) = None"
  by (rule emit_invariant [where P = "\<lambda>x::state. processExplorerWindow x = None"]) (simp_all add: run_handler_explorer_none)

lemma emit_explorer_closed: "explorer_closed w s n st \<Longrightarrow> explorer_closed w s n (emit w' ev st)"
proof (rule emit_invariant [where P = "explorer_closed w s n"])
  fix h and x :: state assume "explorer_closed w s n x"
  then show "explorer_closed w s n (run_handler h x)" by (rule explorer_closed_keep)
qed (simp add: explorer_closed_def)

lemma emit_child_close_explorer:
  assumes "ExplorerOnClose s \<in> set (handlers_on w ev st)"
  shows "processExplorerWindow (emit w ev st) = None \<and> s \<in> disposed_stores (emit w ev st)"
proof -
  let ?B = "\<lambda>x::state. processExplorerWindow x = None \<and> s \<in> disposed_stores x"
  show ?thesis
  proof (rule emit_reach [where A = "\<lambda>_::state. True" and B = ?B and ?h0.0 = "ExplorerOnClose s"])
    show "ExplorerOnClose s \<in> set (handlers_on w ev st)" by (rule assms)
  next
    fix x :: state show "?B (run_handler (ExplorerOnClose s) x)" by (simp add: handler_defs)
  next
    fix h and x :: state assume "?B x"
    then show "?B (run_handler h x)" by (simp add: run_handler_explorer_none run_handler_disposed_mono)
  qed simp_all
qed

lemma emit_parent_closed_explorer_none:
  assumes "ExplorerParentOnClose s \<in> set (handlers_on p ev st)"
  shows "processExplorerWindow (emit p ev st) = None"
proof (rule emit_reach [where A = "\<lambda>_::state. True" and B = "\<lambda>x::state. processExplorerWindow x = None" and ?h0.0 = "ExplorerParentOnClose s"])
  show "ExplorerParentOnClose s \<in> set (handlers_on p ev st)" by (rule assms)
next
  fix x :: state show "processExplorerWindow (run_handler (ExplorerParentOnClose s) x) = None"
    by (simp add: handler_defs split: option.splits)
next
  fix h and x :: state assume "processExplorerWindow x = None"
  then show "processExplorerWindow (run_handler h x) = None" by (rule run_handler_explorer_none)
qed simp_all

lemma emit_parent_closed_explorer_phase:
  assumes sl: "session_listeners lc lp s st" and lc: "l_handler lc = ExplorerOnClose s"
    and lp: "l_handler lp = ExplorerParentOnClose s" "l_window lp = p" "l_event lp = EvClose"
    and op: "explorer_open w s n st" and nec: "no_explorer_child p st"
  shows "explorer_closed w s n (emit p EvClose st)"
proof (rule emit_reach [where A = "explorer_open w s n" and B = "explorer_closed w s n"
        and ?h0.0 = "ExplorerParentOnClose s"])
  show "ExplorerParentOnClose s \<in> set (handlers_on p EvClose st)"
    using handlers_on_member [of lp st] sl lp by (simp add: session_listeners_def)
next
  fix h and x :: state assume h: "h \<in> set (handlers_on p EvClose st)" and x: "explorer_open w s n x"
  have r: "registered_for h EvClose \<and> (s \<in> handler_stores h \<longrightarrow> h = l_handler lc \<or> h = l_handler lp)"
    using handlers_on_registered [OF sl h] .
  have 1: "(case h of ExplorerOnClose _ \<Rightarrow> False | _ \<Rightarrow> True)"
    using handlers_on_no_explorer_child [OF nec h] .
  have 2: "h = ExplorerParentOnClose s \<or> s \<notin> handler_stores h"
    using r lc lp 1 by (cases h) auto
  show "explorer_open w s n (run_handler h x) \<or> explorer_closed w s n (run_handler h x)"
    using explorer_open_step [OF x 1 2] .
next
  fix x :: state assume "explorer_open w s n x"
  then show "explorer_closed w s n (run_handler (ExplorerParentOnClose s) x)"
    by (rule explorer_open_establish)
next
  fix h and x :: state assume "explorer_closed w s n x"
  then show "explorer_closed w s n (run_handler h x)" by (rule explorer_closed_keep)
next
  show "explorer_open w s n (st\<lparr>window_listeners := filter (\<lambda>l. \<not> (listens p EvClose l \<and> l_once l)) (window_listeners st)\<rparr>) \<or>
        explorer_closed w s n (st\<lparr>window_listeners := filter (\<lambda>l. \<not> (listens p EvClose l \<and> l_once l)) (window_listeners st)\<rparr>)"
    using op by (simp add: explorer_open_def)
qed

lemma openProcessExplorer_live:
  "processExplorerWindow st = Some x \<Longrightarrow> openProcessExplorer e d st = (None, perform (WinFocus x) st)"
  by (simp add: openProcessExplorer_def focus_opt_def)

lemma openProcessExplorer_creates:
  assumes "processExplorerWindow st = None" and "getFocusedWindow e = Some p"
    and "openProcessExplorer e d st = (None, st1)"
  shows "processExplorerWindow st1 = Some (next_window st)"
    and "window_listeners st1 =
           window_listeners st @ [explorer_child_listener (next_window st) (next_store st),
                                  explorer_parent_listener p (next_store st)]"
    and "disposed_stores st1 = disposed_stores st"
    and "\<exists>xs. trace st1 = trace st @ xs \<and> (\<forall>s. StoreDispose s \<notin> set xs)"
  using assms
  by (auto simp add: openProcessExplorer_def createBrowserWindow_def focus_opt_def perform_def
      add_listener_def explorer_child_listener_def explorer_parent_listener_def Let_def
      split: sum.splits)

lemma explorer_close_signals:
  assumes wf: "well_formed st" and none: "processExplorerWindow st = None"
    and foc: "getFocusedWindow e = Some p" and plt: "p < next_window st"
    and nec: "no_explorer_child p st"
    and op: "openProcessExplorer e d st = (None, st1)"
  shows "processExplorerWindow st1 = Some (next_window st)"
    and "sigs \<noteq> [] \<Longrightarrow>
           processExplorerWindow (fold (explorer_signal (next_window st) p) sigs st1) = None"
    and "count_list (trace (fold (explorer_signal (next_window st) p) sigs st1))
           (StoreDispose (next_store st)) \<le> 1"
    and "ChildClose \<in> set sigs \<Longrightarrow>
           count_list (trace (fold (explorer_signal (next_window st) p) sigs st1))
             (StoreDispose (next_store st)) = 1"
    and "happens_before (WinClose (next_window st)) (StoreDispose (next_store st))
           (new_effects st1
              (fold (explorer_signal (next_window st) p) (ParentClose # ChildClose # sigs) st1))"
    and "no_listener_on p EvClose st \<Longrightarrow>
           new_effects st1 (emit p EvClose st1) =
             [WinClose (next_window st), StoreDispose (next_store st)]"
proof -
  let ?w = "next_window st" and ?s = "next_store st"
  let ?lc = "explorer_child_listener ?w ?s" and ?lp = "explorer_parent_listener p ?s"
  let ?n = "length (trace st1)"
  let ?sig = "explorer_signal ?w p"
  note cr = openProcessExplorer_creates [OF none foc op]
  show slot: "processExplorerWindow st1 = Some ?w" by (rule cr(1))
  have fresh: "?s \<notin> disposed_stores st" "StoreDispose ?s \<notin> set (trace st)"
    using wf by (auto simp add: well_formed_def)
  have sl: "session_listeners ?lc ?lp ?s st1"
    using wf cr(2)
    by (auto simp add: session_listeners_def well_formed_def explorer_child_listener_def
        explorer_parent_listener_def)
  have coh: "coherent ?s st1"
    using cr(3,4) fresh by (auto simp add: coherent_def count_list_0_iff)
  have opn: "explorer_open ?w ?s ?n st1"
    using slot cr(3) fresh by (simp add: explorer_open_def)
  have nec1: "no_explorer_child p st1"
    using nec plt cr(2)
    by (auto simp add: no_explorer_child_def explorer_child_listener_def
        explorer_parent_listener_def)
  define G where "G = (\<lambda>x. session_listeners ?lc ?lp ?s x \<and> coherent ?s x \<and> no_explorer_child p x)"
  have G1: "G st1" using sl coh nec1 by (simp add: G_def)
  have Gstep: "\<And>sig x. G x \<Longrightarrow> G (?sig sig x)"
    by (auto simp add: G_def explorer_signal_def emit_session_listeners emit_coherent
        emit_no_explorer_child split: close_signal.splits)
  have hc: "\<And>x. G x \<Longrightarrow> ExplorerOnClose ?s \<in> set (handlers_on ?w EvClose x)"
    using handlers_on_member [of ?lc]
    by (auto simp add: G_def session_listeners_def explorer_child_listener_def)
  have hp: "\<And>x. G x \<Longrightarrow> ExplorerParentOnClose ?s \<in> set (handlers_on p EvClose x)"
    using handlers_on_member [of ?lp]
    by (auto simp add: G_def session_listeners_def explorer_parent_listener_def)
  have null1: "\<And>sig x. G x \<Longrightarrow> processExplorerWindow (?sig sig x) = None"
    using emit_child_close_explorer [OF hc] emit_parent_closed_explorer_none [OF hp]
    by (auto simp add: explorer_signal_def split: close_signal.splits)
  have nullk: "\<And>sig x. processExplorerWindow x = None \<Longrightarrow> processExplorerWindow (?sig sig x) = None"
    by (auto simp add: explorer_signal_def emit_explorer_none split: close_signal.splits)
  have Gfold: "\<And>sigs x. G x \<Longrightarrow> G (fold ?sig sigs x)"
    by (rule fold_invariant [where P = G]) (use Gstep in auto)
  show "processExplorerWindow (fold ?sig sigs st1) = None" if "sigs \<noteq> []"
  proof -
    from that obtain sg rest where sigs: "sigs = sg # rest" by (cases sigs) auto
    have "processExplorerWindow (fold ?sig rest (?sig sg st1)) = None"
      by (rule fold_invariant [where P = "\<lambda>x::state. processExplorerWindow x = None"])
         (use nullk null1 [OF G1] in auto)
    then show ?thesis by (simp add: sigs)
  qed
  have cohf: "coherent ?s (fold ?sig sigs st1)" using Gfold [OF G1] by (simp add: G_def)
  then show "count_list (trace (fold ?sig sigs st1)) (StoreDispose ?s) \<le> 1"
    by (simp add: coherent_def)
  have dispc: "\<And>x. G x \<Longrightarrow> ?s \<in> disposed_stores (?sig ChildClose x)"
    using emit_child_close_explorer [OF hc] by (simp add: explorer_signal_def)
  have dispk: "\<And>sig x. ?s \<in> disposed_stores x \<Longrightarrow> ?s \<in> disposed_stores (?sig sig x)"
    by (auto simp add: explorer_signal_def emit_disposed_mono split: close_signal.splits)
  have dispf: "\<And>sigs x. G x \<Longrightarrow> ChildClose \<in> set sigs \<Longrightarrow> ?s \<in> disposed_stores (fold ?sig sigs x)"
    by (rule fold_reach [where P = G and ?x0.0 = ChildClose])
       (use Gstep dispc dispk in auto)
  show "count_list (trace (fold ?sig sigs st1)) (StoreDispose ?s) = 1" if "ChildClose \<in> set sigs"
    using dispf [OF G1 that] cohf by (simp add: coherent_def)
  show "happens_before (WinClose ?w) (StoreDispose ?s)
          (new_effects st1 (fold ?sig (ParentClose # ChildClose # sigs) st1))"
  proof -
    let ?a = "?sig ParentClose st1"
    let ?b = "?sig ChildClose ?a"
    let ?c = "fold ?sig sigs ?b"
    have closed_a: "explorer_closed ?w ?s ?n ?a"
      using emit_parent_closed_explorer_phase [OF sl _ _ _ _ opn nec1]
      by (simp add: explorer_signal_def explorer_child_listener_def explorer_parent_listener_def)
    have closedk: "\<And>sig x. explorer_closed ?w ?s ?n x \<Longrightarrow> explorer_closed ?w ?s ?n (?sig sig x)"
      by (auto simp add: explorer_signal_def emit_explorer_closed split: close_signal.splits)
    have "explorer_closed ?w ?s ?n ?c"
      by (rule fold_invariant [where P = "explorer_closed ?w ?s ?n"])
         (use closedk closed_a in auto)
    moreover have "?s \<in> disposed_stores ?c"
      by (rule fold_invariant [where P = "\<lambda>x::state. ?s \<in> disposed_stores x"])
         (use dispk dispc [OF Gstep [OF G1]] in auto)
    ultimately show ?thesis by (simp add: explorer_closed_def new_effects_def)
  qed
  show "new_effects st1 (emit p EvClose st1) = [WinClose ?w, StoreDispose ?s]"
    if "no_listener_on p EvClose st"
  proof -
    have "handlers_on p EvClose st1 = [ExplorerParentOnClose ?s]"
      using that cr(2) plt
      by (auto simp add: handlers_on_def no_listener_on_def listens_def filter_empty_conv
          explorer_child_listener_def explorer_parent_listener_def)
    then show ?thesis
      using slot cr(3) fresh
      by (simp add: emit_alt new_effects_def handler_defs)
  qed
qed

lemmas open_defs = openBrowserWindow_def bridge_create_def bridge_live_def example_env_def
  initial_state_def getWindowPosition_full_hd Let_def perform_def add_listener_def focus_opt_def
  settle_def ipc_on_def ipc_removeAllListeners_def windowHeight_def truthy_def

section \<open>Listeners of the bridge window\<close>





lemma ipc_handlers_on_frame [simp]:
  "ipc_handlers_on ch (st\<lparr>window_listeners := x\<rparr>) = ipc_handlers_on ch st"
  "ipc_handlers_on ch (st\<lparr>trace := y\<rparr>) = ipc_handlers_on ch st"
  by (simp_all add: ipc_handlers_on_def)


lemma openBrowserWindow_live:
  assumes "browserWindow st = Some b" and "b \<notin> destroyed st"
  shows "openBrowserWindow e args st =
           (next_promise st,
            settle (next_promise st) (Rejected None)
              (perform (WinFocus b)
                 ((if b \<in> minimized st then win_restore b else (\<lambda>x. x))
                    (st\<lparr>next_promise := Suc (next_promise st),
                        promises := (promises st)(next_promise st := Pending)\<rparr>))))"
  using assms
  by (simp add: openBrowserWindow_def bridge_live_def Let_def win_restore_def perform_def)

section \<open>Concrete sessions\<close>

lemma getWindowPosition_full_hd_explorer:
  "getWindowPosition (single_screen full_hd) mac parent 800 500 =
     Inr \<lparr> ws_x = 560, ws_y = 290, ws_width = 800, ws_height = 500 \<rparr>"
  by (simp add: getWindowPosition_def displayToUse_def single_screen_def full_hd_def
      first_display_def place_on_def Let_def)

lemmas session_defs = getWindowPosition_full_hd_explorer openReporter_def openProcessExplorer_def createBrowserWindow_def
  example_env_def initial_state_def getWindowPosition_full_hd Let_def perform_def
  add_listener_def focus_opt_def

lemma reporter_open_state_eval:
  "openReporter example_env ''data'' initial_state = (None, reporter_open_state)"
  "issueReporterWindow reporter_open_state = Some 1"
  by (simp_all add: reporter_open_state_def session_defs)

lemma explorer_open_state_eval:
  "openProcessExplorer example_env ''data'' initial_state = (None, explorer_open_state)"
  "processExplorerWindow explorer_open_state = Some 1"
  by (simp_all add: explorer_open_state_def session_defs)

lemma cert_bridge_state_eval:
  "openBrowserWindow example_env [cert_config] initial_state = (0, cert_bridge_state)"
  "browserWindow cert_bridge_state = Some 1" "destroyed cert_bridge_state = {}"
  "next_promise cert_bridge_state = 1" "next_window cert_bridge_state = 2"
  by (simp_all add: cert_bridge_state_def cert_config_def open_defs)


lemma well_formed_initial: "well_formed initial_state"
  by (simp add: well_formed_def initial_state_def)

section \<open>Well-formed states\<close>

lemma well_formed_run_handler:
  assumes "well_formed st" and "\<forall>s \<in> handler_stores h. s < next_store st"
  shows "well_formed (run_handler h st)"
  using assms
  by (cases h) (auto simp add: well_formed_def handler_defs split: option.splits)

lemma run_handler_next_store [simp]: "next_store (run_handler h st) = next_store st"
  by (cases h) (simp_all add: handler_defs split: option.splits)

lemma well_formed_run_handlers:
  assumes "well_formed st" and "\<forall>h \<in> set hs. \<forall>s \<in> handler_stores h. s < next_store st"
  shows "well_formed (run_handlers hs st)"
  using assms
proof (induction hs arbitrary: st)
  case Nil then show ?case by simp
next
  case (Cons h hs)
  have "well_formed (run_handler h st)"
    using Cons.prems by (intro well_formed_run_handler) auto
  then show ?case using Cons.IH [of "run_handler h st"] Cons.prems by simp
qed

lemma well_formed_emit: "well_formed st \<Longrightarrow> well_formed (emit w ev st)"
  unfolding emit_alt
  by (rule well_formed_run_handlers) (auto simp add: well_formed_def handlers_on_def)

lemma well_formed_window_closed: "well_formed st \<Longrightarrow> well_formed (window_closed w st)"
  unfolding window_closed_def by (rule well_formed_emit) (simp add: well_formed_def)

lemma well_formed_window_created_elsewhere:
  "well_formed st \<Longrightarrow> well_formed (window_created_elsewhere st)"
  by (auto simp add: well_formed_def window_created_elsewhere_def less_Suc_eq)

lemma well_formed_openReporter:
  assumes "well_formed st" and "\<forall>p. getFocusedWindow e = Some p \<longrightarrow> p < next_window st"
  shows "well_formed (snd (openReporter e d st))"
  using assms
  by (auto simp add: openReporter_def createBrowserWindow_def focus_opt_def perform_def
      add_listener_def well_formed_def Let_def less_Suc_eq
      split: option.splits sum.splits)

lemma well_formed_openProcessExplorer:
  assumes "well_formed st" and "\<forall>p. getFocusedWindow e = Some p \<longrightarrow> p < next_window st"
  shows "well_formed (snd (openProcessExplorer e d st))"
  using assms
  by (auto simp add: openProcessExplorer_def createBrowserWindow_def focus_opt_def perform_def
      add_listener_def well_formed_def Let_def less_Suc_eq
      split: option.splits sum.splits)

lemma well_formed_frame [simp]:
  "well_formed (st\<lparr>promises := f\<rparr>) = well_formed st"
  "well_formed (st\<lparr>next_promise := n\<rparr>) = well_formed st"
  "well_formed (st\<lparr>browserWindow := bw\<rparr>) = well_formed st"
  "well_formed (st\<lparr>browserParentWindow := bp\<rparr>) = well_formed st"
  "well_formed (st\<lparr>minimized := m\<rparr>) = well_formed st"
  "well_formed (st\<lparr>destroyed := ds\<rparr>) = well_formed st"
  "well_formed (st\<lparr>ipc_listeners := il\<rparr>) = well_formed st"
  "well_formed (st\<lparr>issueReporterWindow := a\<rparr>) = well_formed st"
  "well_formed (st\<lparr>processExplorerWindow := a\<rparr>) = well_formed st"
  by (simp_all add: well_formed_def)

lemma well_formed_perform:
  "well_formed st \<Longrightarrow> (\<forall>s. x \<noteq> StoreDispose s) \<Longrightarrow> well_formed (perform x st)"
  by (auto simp add: well_formed_def perform_def)

lemma well_formed_add_listener:
  "well_formed st \<Longrightarrow> w < next_window st \<Longrightarrow> registered_for h ev \<Longrightarrow>
   (\<forall>s \<in> handler_stores h. s < next_store st) \<Longrightarrow> well_formed (add_listener w ev once h st)"
  by (auto simp add: well_formed_def add_listener_def)

lemma well_formed_new_window:
  "well_formed st \<Longrightarrow> well_formed (st\<lparr>next_window := Suc (next_window st)\<rparr>)"
  by (auto simp add: well_formed_def less_Suc_eq)

lemma next_window_frame [simp]:
  "next_window (perform x st) = next_window st"
  "next_window (add_listener w ev once h st) = next_window st"
  "next_window (ipc_on c ih st) = next_window st"
  "next_window (ipc_removeAllListeners c st) = next_window st"
  "next_window (settle pid v st) = next_window st"
  by (simp_all add: perform_def add_listener_def ipc_on_def ipc_removeAllListeners_def settle_def)

lemma well_formed_ipc [simp]:
  "well_formed (ipc_on c ih st) = well_formed st"
  "well_formed (ipc_removeAllListeners c st) = well_formed st"
  "well_formed (settle pid v st) = well_formed st"
  by (simp_all add: ipc_on_def ipc_removeAllListeners_def settle_def)

lemma register_events_next_window [simp]:
  "next_window (register_events pid winId b evs st) = next_window st"
  by (induction evs arbitrary: st) (simp_all add: Let_def)

lemma well_formed_register_events:
  "well_formed st \<Longrightarrow> b < next_window st \<Longrightarrow> well_formed (register_events pid winId b evs st)"
proof (induction evs arbitrary: st)
  case Nil then show ?case by simp
next
  case (Cons ev evs)
  show ?case
  proof (cases "ev_channel ev = [] \<or> ev_command ev = []")
    case True
    then show ?thesis using Cons by simp
  next
    case False
    let ?st3 = "add_listener b EvClosed False (BridgeOnClosedChannel pid (ev_channel ev))
        (ipc_on (ev_channel ev) (BridgeOnMessage pid winId (ev_command ev))
           (ipc_removeAllListeners (ev_channel ev) st))"
    have "well_formed ?st3"
      using Cons.prems by (intro well_formed_add_listener) simp_all
    then have "well_formed (register_events pid winId b evs ?st3)"
      using Cons.prems by (intro Cons.IH) simp_all
    then show ?thesis using False by (simp add: Let_def)
  qed
qed

lemma well_formed_bridge_create:
  assumes "well_formed st" and "p < next_window st"
  shows "well_formed (snd (bridge_create e config pid p st))"
proof (cases "getWindowPosition (screen e) (isMacintosh e) (Some p) 700 800")
  case (Inl x)
  then show ?thesis using assms by (simp add: bridge_create_def)
next
  case (Inr pos)
  show ?thesis
  proof (cases "cfg_data config")
    case None
    then show ?thesis using assms Inr by (simp add: bridge_create_def)
  next
    case (Some dat)
    let ?b = "next_window st"
    have lt: "?b < Suc ?b" "p < Suc ?b" using assms by simp_all
    show ?thesis
      using assms Inr Some lt
      by (auto simp add: bridge_create_def Let_def
          intro!: well_formed_add_listener well_formed_register_events well_formed_perform
            well_formed_new_window)
  qed
qed

lemma well_formed_openBrowserWindow:
  assumes "well_formed st" and "\<forall>p. getFocusedWindow e = Some p \<longrightarrow> p < next_window st"
  shows "well_formed (snd (openBrowserWindow e args st))"
proof -
  let ?st0 = "st\<lparr>next_promise := Suc (next_promise st),
                  promises := (promises st)(next_promise st := Pending)\<rparr>"
  have wf0: "well_formed ?st0" using assms by simp
  have foc: "\<And>x. well_formed x \<Longrightarrow> well_formed (focus_opt (browserWindow x) x)"
    by (auto simp add: focus_opt_def intro: well_formed_perform split: option.splits)
  show ?thesis
  proof (cases "bridge_live ?st0")
    case True
    then show ?thesis
      using wf0
      by (auto simp add: openBrowserWindow_def Let_def win_restore_def
          intro!: well_formed_perform split: option.splits)
  next
    case False
    show ?thesis
    proof (cases args)
      case Nil
      then show ?thesis using False wf0 by (simp add: openBrowserWindow_def Let_def)
    next
      case (Cons config rest)
      show ?thesis
      proof (cases "browserWindow st")
        case (Some b)
        then show ?thesis
          using False Cons wf0 foc [of ?st0]
          by (simp add: openBrowserWindow_def Let_def)
      next
        case None
        show ?thesis
        proof (cases "getFocusedWindow e")
          case None': None
          then show ?thesis
            using False Cons None wf0 foc [of "?st0\<lparr>browserParentWindow := None\<rparr>"]
            by (simp add: openBrowserWindow_def Let_def)
        next
          case (Some p)
          let ?st' = "?st0\<lparr>browserParentWindow := Some p\<rparr>"
          have "p < next_window ?st'" using assms(2) Some by simp
          then have wfc: "well_formed (snd (bridge_create e config (next_promise st) p ?st'))"
            using wf0 by (intro well_formed_bridge_create) simp_all
          show ?thesis
            using False Cons None Some wfc
              foc [of "snd (bridge_create e config (next_promise st) p ?st')"]
            by (auto simp add: openBrowserWindow_def Let_def split: prod.splits option.splits)
        qed
      qed
    qed
  qed
qed

lemma well_formed_ipc_message: "well_formed st \<Longrightarrow> well_formed (ipc_message ch a st)"
proof -
  have h: "\<And>h x. well_formed x \<Longrightarrow> well_formed (run_ipc_handler h a x)"
    subgoal for h x
      by (cases h) (auto intro: well_formed_perform split: option.splits)
    done
  have "\<And>x. well_formed x \<Longrightarrow> well_formed (run_ipc_handlers hs a x)" for hs
    by (induction hs) (simp_all add: h)
  then show "well_formed st \<Longrightarrow> well_formed (ipc_message ch a st)"
    by (simp add: ipc_message_def)
qed

lemma well_formed_fire_timer: "well_formed st \<Longrightarrow> well_formed (fire_timer st)"
proof (cases "timers st")
  case Nil
  then show "well_formed st \<Longrightarrow> well_formed (fire_timer st)" by (simp add: fire_timer_def)
next
  case (Cons h hs)
  assume wf: "well_formed st"
  then have "well_formed (st\<lparr>timers := hs\<rparr>)" and "handler_stores h = {}"
    using Cons by (auto simp add: well_formed_def)
  then have "well_formed (run_handler h (st\<lparr>timers := hs\<rparr>))"
    by (intro well_formed_run_handler) simp_all
  then show "well_formed (fire_timer st)" using Cons by (simp add: fire_timer_def)
qed

section \<open>Reopening a live session\<close>

text \<open>
  C1, evaluated where the code departs from it. With the issue reporter (or the process
  explorer) live and minimized, a second open call issues only \<open>focus()\<close> on the existing
  window: nothing restores it and it is still minimized afterwards. The bridge path, on a
  minimized bridge window, issues \<open>restore()\<close> and then \<open>focus()\<close>. (That the second call
  creates no window and leaves the one live window in its slot is \<open>openReporter_live\<close>,
  \<open>openProcessExplorer_live\<close> and \<open>openBrowserWindow_live\<close>.)
\<close>

theorem reopen_minimized_not_restored:
  "issueReporterWindow reporter_minimized_state = Some 1 \<and>
   1 \<in> minimized reporter_minimized_state \<and>
   new_effects reporter_minimized_state
     (snd (openReporter example_env ''data'' reporter_minimized_state)) = [WinFocus 1] \<and>
   1 \<in> minimized (snd (openReporter example_env ''data'' reporter_minimized_state)) \<and>
   processExplorerWindow explorer_minimized_state = Some 1 \<and>
   1 \<in> minimized explorer_minimized_state \<and>
   new_effects explorer_minimized_state
     (snd (openProcessExplorer example_env ''data'' explorer_minimized_state)) = [WinFocus 1] \<and>
   1 \<in> minimized (snd (openProcessExplorer example_env ''data'' explorer_minimized_state)) \<and>
   browserWindow bridge_minimized_state = Some 1 \<and>
   1 \<in> minimized bridge_minimized_state \<and>
   new_effects bridge_minimized_state
     (snd (openBrowserWindow example_env [cert_config] bridge_minimized_state)) =
     [WinRestore 1, WinFocus 1]"
proof -
  have r: "issueReporterWindow reporter_minimized_state = Some 1"
    by (simp add: reporter_minimized_state_def reporter_open_state_eval)
  have x: "processExplorerWindow explorer_minimized_state = Some 1"
    by (simp add: explorer_minimized_state_def explorer_open_state_eval)
  have b: "browserWindow bridge_minimized_state = Some 1" "1 \<notin> destroyed bridge_minimized_state"
    by (simp_all add: bridge_minimized_state_def cert_bridge_state_eval)
  have m: "1 \<in> minimized reporter_minimized_state" "1 \<in> minimized explorer_minimized_state"
    "1 \<in> minimized bridge_minimized_state"
    by (simp_all add: reporter_minimized_state_def explorer_minimized_state_def
        bridge_minimized_state_def)
  show ?thesis
    using r x b m
    by (simp add: openReporter_live [OF r] openProcessExplorer_live [OF x]
        openBrowserWindow_live [OF b] new_effects_def perform_def settle_def win_restore_def)
qed

text \<open>
  C7. A request for a bridge session while the bridge slot holds a window that is not
  destroyed returns a promise that is already rejected when the call returns. Before the
  rejection the existing window is restored if it was minimized, then focused; these are the
  only effects. No window is created (Electron's next window id, the slot and all listeners
  are unchanged).
\<close>

theorem bridge_second_request_rejected:
  assumes "browserWindow st = Some b" and "b \<notin> destroyed st"
  shows "fst (openBrowserWindow e args st) = next_promise st \<and>
         promises (snd (openBrowserWindow e args st)) (next_promise st) = Rejected None \<and>
         new_effects st (snd (openBrowserWindow e args st)) =
           (if b \<in> minimized st then [WinRestore b] else []) @ [WinFocus b] \<and>
         next_window (snd (openBrowserWindow e args st)) = next_window st \<and>
         browserWindow (snd (openBrowserWindow e args st)) = Some b \<and>
         window_listeners (snd (openBrowserWindow e args st)) = window_listeners st \<and>
         ipc_listeners (snd (openBrowserWindow e args st)) = ipc_listeners st \<and>
         b \<notin> minimized (snd (openBrowserWindow e args st))"
  using assms
  by (simp add: openBrowserWindow_live [OF assms] settle_def perform_def win_restore_def
      new_effects_def)

theorem bridge_second_request_rejected_witness:
  "browserWindow bridge_minimized_state = Some 1 \<and> 1 \<notin> destroyed bridge_minimized_state \<and>
   fst (openBrowserWindow example_env [login_config] bridge_minimized_state) = 1 \<and>
   promises (snd (openBrowserWindow example_env [login_config] bridge_minimized_state)) 1 =
     Rejected None \<and>
   new_effects bridge_minimized_state
     (snd (openBrowserWindow example_env [login_config] bridge_minimized_state)) =
     [WinRestore 1, WinFocus 1] \<and>
   next_window (snd (openBrowserWindow example_env [login_config] bridge_minimized_state)) = 2"
proof -
  have b: "browserWindow bridge_minimized_state = Some 1" "1 \<notin> destroyed bridge_minimized_state"
    by (simp_all add: bridge_minimized_state_def cert_bridge_state_eval)
  have m: "1 \<in> minimized bridge_minimized_state" "next_promise bridge_minimized_state = 1"
    "next_window bridge_minimized_state = 2"
    by (simp_all add: bridge_minimized_state_def cert_bridge_state_eval)
  show ?thesis
    using bridge_second_request_rejected [OF b, of example_env "[login_config]"] b m
    by simp
qed

section \<open>Channels of the bridge window\<close>




section \<open>Closing a session from the parent and from the child\<close>

text \<open>
  The close signals each session listens to. Take a well-formed state with an empty
  issue-reporter slot, open the issue reporter from the focused window \<open>p\<close> and let
  signals arrive in any order and number: the \<open>close\<close> event of the new window and the
  \<open>closed\<close> event of \<open>p\<close>. Then after the first signal the slot is null; the session's
  disposable store is released at most once, and exactly once as soon as the child's
  \<open>close\<close> event is among the signals; when the parent's signal comes first and the
  child's \<open>close\<close> follows, the \<open>close()\<close> call on the child precedes the release of the
  store; and when no other listener sits on that parent event, the parent's listener alone
  performs exactly the \<open>close()\<close> call and then the release. The same holds for the
  process explorer with the \<open>close\<close> event of its parent, the only parent event it
  listens to, for a parent that is not itself a process-explorer window. While a slot holds
  a window, an open call creates nothing and only focuses that window, so a new session of
  the role starts only after the slot was nulled.
\<close>

lemma close_signals_dispose_once:
  "(well_formed st \<and> issueReporterWindow st = None \<and> getFocusedWindow e = Some p \<and>
    openReporter e d st = (None, st1) \<longrightarrow>
      issueReporterWindow st1 = Some (next_window st) \<and>
      (sigs \<noteq> [] \<longrightarrow>
         issueReporterWindow (fold (reporter_signal (next_window st) p) sigs st1) = None) \<and>
      count_list (trace (fold (reporter_signal (next_window st) p) sigs st1))
        (StoreDispose (next_store st)) \<le> 1 \<and>
      (ChildClose \<in> set sigs \<longrightarrow>
         count_list (trace (fold (reporter_signal (next_window st) p) sigs st1))
           (StoreDispose (next_store st)) = 1) \<and>
      happens_before (WinClose (next_window st)) (StoreDispose (next_store st))
        (new_effects st1
           (fold (reporter_signal (next_window st) p) (ParentClose # ChildClose # sigs) st1)) \<and>
      (no_listener_on p EvClosed st \<longrightarrow>
         new_effects st1 (emit p EvClosed st1) =
           [WinClose (next_window st), StoreDispose (next_store st)])) \<and>
   (well_formed st \<and> processExplorerWindow st = None \<and> getFocusedWindow e = Some p \<and>
    p < next_window st \<and> no_explorer_child p st \<and>
    openProcessExplorer e d st = (None, st2) \<longrightarrow>
      processExplorerWindow st2 = Some (next_window st) \<and>
      (sigs \<noteq> [] \<longrightarrow>
         processExplorerWindow (fold (explorer_signal (next_window st) p) sigs st2) = None) \<and>
      count_list (trace (fold (explorer_signal (next_window st) p) sigs st2))
        (StoreDispose (next_store st)) \<le> 1 \<and>
      (ChildClose \<in> set sigs \<longrightarrow>
         count_list (trace (fold (explorer_signal (next_window st) p) sigs st2))
           (StoreDispose (next_store st)) = 1) \<and>
      happens_before (WinClose (next_window st)) (StoreDispose (next_store st))
        (new_effects st2
           (fold (explorer_signal (next_window st) p) (ParentClose # ChildClose # sigs) st2)) \<and>
      (no_listener_on p EvClose st \<longrightarrow>
         new_effects st2 (emit p EvClose st2) =
           [WinClose (next_window st), StoreDispose (next_store st)])) \<and>
   (issueReporterWindow x = Some y \<longrightarrow>
      openReporter e' d' x = (None, perform (WinFocus y) x)) \<and>
   (processExplorerWindow x = Some z \<longrightarrow>
      openProcessExplorer e' d' x = (None, perform (WinFocus z) x))"
proof (intro conjI impI)
  assume a: "well_formed st \<and> issueReporterWindow st = None \<and> getFocusedWindow e = Some p \<and>
    openReporter e d st = (None, st1)"
  then have wf: "well_formed st" and none: "issueReporterWindow st = None"
    and foc: "getFocusedWindow e = Some p" and op: "openReporter e d st = (None, st1)"
    by simp_all
  note r = reporter_close_signals [OF wf none foc op]
  show "issueReporterWindow st1 = Some (next_window st)" by (rule r(1))
  show "count_list (trace (fold (reporter_signal (next_window st) p) sigs st1))
        (StoreDispose (next_store st)) \<le> 1" by (rule r(3))
  show "happens_before (WinClose (next_window st)) (StoreDispose (next_store st))
        (new_effects st1
           (fold (reporter_signal (next_window st) p) (ParentClose # ChildClose # sigs) st1))"
    by (rule r(5))
  { assume "sigs \<noteq> []"
    then show "issueReporterWindow (fold (reporter_signal (next_window st) p) sigs st1) = None"
      by (rule r(2)) }
  { assume "ChildClose \<in> set sigs"
    then show "count_list (trace (fold (reporter_signal (next_window st) p) sigs st1))
           (StoreDispose (next_store st)) = 1" by (rule r(4)) }
  { assume "no_listener_on p EvClosed st"
    then show "new_effects st1 (emit p EvClosed st1) =
           [WinClose (next_window st), StoreDispose (next_store st)]" by (rule r(6)) }
next
  assume a: "well_formed st \<and> processExplorerWindow st = None \<and> getFocusedWindow e = Some p \<and>
    p < next_window st \<and> no_explorer_child p st \<and>
    openProcessExplorer e d st = (None, st2)"
  then have wf: "well_formed st" and none: "processExplorerWindow st = None"
    and foc: "getFocusedWindow e = Some p" and plt: "p < next_window st"
    and nec: "no_explorer_child p st" and op: "openProcessExplorer e d st = (None, st2)"
    by simp_all
  note r = explorer_close_signals [OF wf none foc plt nec op]
  show "processExplorerWindow st2 = Some (next_window st)" by (rule r(1))
  show "count_list (trace (fold (explorer_signal (next_window st) p) sigs st2))
        (StoreDispose (next_store st)) \<le> 1" by (rule r(3))
  show "happens_before (WinClose (next_window st)) (StoreDispose (next_store st))
        (new_effects st2
           (fold (explorer_signal (next_window st) p) (ParentClose # ChildClose # sigs) st2))"
    by (rule r(5))
  { assume "sigs \<noteq> []"
    then show "processExplorerWindow (fold (explorer_signal (next_window st) p) sigs st2) = None"
      by (rule r(2)) }
  { assume "ChildClose \<in> set sigs"
    then show "count_list (trace (fold (explorer_signal (next_window st) p) sigs st2))
           (StoreDispose (next_store st)) = 1" by (rule r(4)) }
  { assume "no_listener_on p EvClose st"
    then show "new_effects st2 (emit p EvClose st2) =
           [WinClose (next_window st), StoreDispose (next_store st)]" by (rule r(6)) }
next
  assume "issueReporterWindow x = Some y"
  then show "openReporter e' d' x = (None, perform (WinFocus y) x)" by (rule openReporter_live)
next
  assume "processExplorerWindow x = Some z"
  then show "openProcessExplorer e' d' x = (None, perform (WinFocus z) x)"
    by (rule openProcessExplorer_live)
qed

lemma close_signals_dispose_once_example:
  "well_formed initial_state \<and> issueReporterWindow initial_state = None \<and>
   processExplorerWindow initial_state = None \<and>
   getFocusedWindow example_env = Some 0 \<and> 0 < next_window initial_state \<and>
   no_explorer_child 0 initial_state \<and>
   no_listener_on 0 EvClosed initial_state \<and> no_listener_on 0 EvClose initial_state \<and>
   openReporter example_env ''data'' initial_state = (None, reporter_open_state) \<and>
   openProcessExplorer example_env ''data'' initial_state = (None, explorer_open_state) \<and>
   [ParentClose, ChildClose] \<noteq> [] \<and> ChildClose \<in> set [ParentClose, ChildClose] \<and>
   issueReporterWindow reporter_open_state = Some 1 \<and>
   issueReporterWindow
     (fold (reporter_signal 1 0) [ParentClose, ChildClose] reporter_open_state) = None \<and>
   count_list (trace (fold (reporter_signal 1 0) [ParentClose, ChildClose] reporter_open_state))
     (StoreDispose 0) = 1 \<and>
   new_effects reporter_open_state (emit 0 EvClosed reporter_open_state) =
     [WinClose 1, StoreDispose 0] \<and>
   processExplorerWindow explorer_open_state = Some 1 \<and>
   processExplorerWindow
     (fold (explorer_signal 1 0) [ParentClose, ChildClose] explorer_open_state) = None \<and>
   count_list (trace (fold (explorer_signal 1 0) [ParentClose, ChildClose] explorer_open_state))
     (StoreDispose 0) = 1 \<and>
   new_effects explorer_open_state (emit 0 EvClose explorer_open_state) =
     [WinClose 1, StoreDispose 0] \<and>
   openReporter example_env ''again'' reporter_open_state =
     (None, perform (WinFocus 1) reporter_open_state) \<and>
   openProcessExplorer example_env ''again'' explorer_open_state =
     (None, perform (WinFocus 1) explorer_open_state)"
proof -
  have i: "issueReporterWindow initial_state = None" "processExplorerWindow initial_state = None"
    "next_window initial_state = 1" "next_store initial_state = 0"
    "no_explorer_child 0 initial_state" "no_listener_on 0 EvClosed initial_state"
    "no_listener_on 0 EvClose initial_state"
    by (simp_all add: initial_state_def no_explorer_child_def no_listener_on_def)
  have f: "getFocusedWindow example_env = Some 0" by (simp add: example_env_def)
  have s: "[ParentClose, ChildClose] \<noteq> []" "ChildClose \<in> set [ParentClose, ChildClose]"
    by simp_all
  show ?thesis
    using close_signals_dispose_once [of initial_state example_env 0 "''data''"
        reporter_open_state "[ParentClose, ChildClose]" explorer_open_state
        reporter_open_state 1 example_env "''again''" 1]
      close_signals_dispose_once [of initial_state example_env 0 "''data''"
        reporter_open_state "[ParentClose, ChildClose]" explorer_open_state
        explorer_open_state 1 example_env "''again''" 1]
      well_formed_initial i f s reporter_open_state_eval explorer_open_state_eval
    by simp
qed

text \<open>
  The confirm-close path destroys the issue-reporter window and nulls its slot without
  disposing the session's store: the \<open>close\<close> listener does not run on \<open>destroy()\<close>.
\<close>

lemma confirm_close_skips_dispose:
  "new_effects reporter_open_state
     (on_issueReporterConfirmClose 0 (\<lambda>x. x) reporter_open_state) =
     [ShowMessageBox 1 ''confirmCloseIssueReporter'', WinDestroy 1] \<and>
   issueReporterWindow (on_issueReporterConfirmClose 0 (\<lambda>x. x) reporter_open_state) = None \<and>
   disposed_stores (on_issueReporterConfirmClose 0 (\<lambda>x. x) reporter_open_state) = {}"
  by (simp add: on_issueReporterConfirmClose_def reporter_open_state_def session_defs
      new_effects_def win_destroy_def)

text \<open>
  C2, evaluated where the code departs from it. The process explorer listens to the
  \<open>close\<close> event of its parent, which Electron emits before a close that can still be
  cancelled, and not to \<open>closed\<close>. When the parent window 0 of the live process explorer
  is closed without a \<open>close\<close> event (it is destroyed; Electron emits only \<open>closed\<close>),
  no listener of the session runs: the child window 1 is not closed, it stays in its slot,
  and the session's store is not disposed. The issue reporter, which listens to \<open>closed\<close>,
  on the same input closes its child and then disposes the store. (What holds for both
  roles under the signals they listen to is \<open>close_signals_dispose_once\<close>.)
\<close>

theorem explorer_parent_closed_not_handled:
  "processExplorerWindow explorer_open_state = Some 1 \<and>
   processExplorerParentWindow explorer_open_state = Some 0 \<and>
   0 \<in> destroyed (window_closed 0 explorer_open_state) \<and>
   processExplorerWindow (window_closed 0 explorer_open_state) = Some 1 \<and>
   new_effects explorer_open_state (window_closed 0 explorer_open_state) = [] \<and>
   disposed_stores (window_closed 0 explorer_open_state) = {} \<and>
   issueReporterWindow reporter_open_state = Some 1 \<and>
   issueReporterParentWindow reporter_open_state = Some 0 \<and>
   issueReporterWindow (window_closed 0 reporter_open_state) = None \<and>
   new_effects reporter_open_state (window_closed 0 reporter_open_state) =
     [WinClose 1, StoreDispose 0] \<and>
   disposed_stores (window_closed 0 reporter_open_state) = {0}"
  by (simp add: explorer_open_state_def reporter_open_state_def session_defs new_effects_def
      window_closed_def emit_def listens_def dispose_def)

end
